theory Spec2Isabelle
  imports Complex_Main
begin

section \<open>Data model\<close>

text \<open>
  The algorithms of \<^verbatim>\<open>bax/alg/algorithms.py\<close> query a function \<open>f\<close> point by point
  and record the queries in an execution path \<^verbatim>\<open>Namespace(x=[], y=[])\<close>.
  A point is a Python list of floats (\<^verbatim>\<open>[[x] for x in np.linspace(...)]\<close>,
  \<^verbatim>\<open>[4.0]\<close>); floats are idealised as the reals throughout.
  The exceptions that the modelled code can raise are results of a sum type.
\<close>

type_synonym point = "real list"

datatype error = IndexError | ValueError

record exe_path =
  x :: "point list"
  y :: "real list"

text \<open>
  \<^verbatim>\<open>self.params\<close> is a \<^verbatim>\<open>Namespace\<close>. Every class stores \<open>name\<close>; the grid
  classes add \<open>x_path\<close>, \<^verbatim>\<open>LinearScanRandGap\<close> adds \<open>x_path_orig\<close> to what it
  inherits from \<^verbatim>\<open>LinearScan\<close>, and \<^verbatim>\<open>OptRightScan\<close> has its own four settings.
\<close>

record params =
  name :: string

record grid_params = params +
  x_path :: "point list"

record randgap_params = grid_params +
  x_path_orig :: "point list"

record ors_params = params +
  init_x :: point
  x_grid_gap :: real
  conv_thresh :: real
  max_iter :: int

text \<open>
  The argument of \<^verbatim>\<open>set_params\<close>, after \<^verbatim>\<open>dict_to_namespace\<close>: a namespace on which
  each attribute may be missing. \<^verbatim>\<open>getattr(params, key, default)\<close> reads it.
\<close>

record config =
  cfg_name :: "string option"

record grid_config = config +
  cfg_x_path :: "point list option"

record ors_config = config +
  cfg_init_x :: "point option"
  cfg_x_grid_gap :: "real option"
  cfg_conv_thresh :: "real option"
  cfg_max_iter :: "int option"

definition getattr :: "'a option \<Rightarrow> 'a \<Rightarrow> 'a" where
  "getattr attr dflt = (case attr of None \<Rightarrow> dflt | Some v \<Rightarrow> v)"

section \<open>The numpy functions the code calls\<close>

text \<open>
  \<^verbatim>\<open>np.linspace(start, stop, num)\<close>: \<open>num\<close> evenly spaced samples over the closed
  interval, the single sample \<open>start\<close> when \<open>num = 1\<close>. (numpy stores \<open>stop\<close> itself
  as the last sample when \<open>num > 1\<close>; over the reals the formula gives the same.)
\<close>

definition np_linspace :: "real \<Rightarrow> real \<Rightarrow> nat \<Rightarrow> real list" where
  "np_linspace start stop num =
     (if num = 1 then [start]
      else map (\<lambda>i. start + real i * ((stop - start) / real (num - 1))) [0..<num])"

text \<open>
  \<^verbatim>\<open>np.min\<close> and \<^verbatim>\<open>np.max\<close> of a sequence raise \<^verbatim>\<open>ValueError\<close> on a
  zero-size one. On a list of points they reduce over all coordinates, which is
  \<open>np_min (concat x_path)\<close> here.
\<close>

definition np_min :: "real list \<Rightarrow> error + real" where
  "np_min a = (if a = [] then Inl ValueError else Inr (Min (set a)))"

definition np_max :: "real list \<Rightarrow> error + real" where
  "np_max a = (if a = [] then Inl ValueError else Inr (Max (set a)))"

text \<open>
  \<^verbatim>\<open>np.mean\<close> of an empty sequence is \<^verbatim>\<open>nan\<close> (with a warning, no exception):
  \<open>None\<close> stands for \<^verbatim>\<open>nan\<close>.
\<close>

definition np_mean :: "real list \<Rightarrow> real option" where
  "np_mean a = (if a = [] then None else Some (sum_list a / real (length a)))"

definition np_ceil :: "real \<Rightarrow> int" where
  "np_ceil r = \<lceil>r\<rceil>"

text \<open>
  \<^verbatim>\<open>np.random.randint(low, high)\<close> raises \<^verbatim>\<open>ValueError\<close> unless \<open>low < high\<close>
  and otherwise returns what the generator draws. The generator is the parameter
  \<open>rng\<close>; \<open>randint_contract\<close> is what numpy documents of the drawn value: an integer of
  the half-open interval from \<open>low\<close> (inclusive) to \<open>high\<close> (exclusive).
\<close>

definition np_random_randint :: "(int \<Rightarrow> int \<Rightarrow> int) \<Rightarrow> int \<Rightarrow> int \<Rightarrow> error + int" where
  "np_random_randint rng low high =
     (if low < high then Inr (rng low high) else Inl ValueError)"

definition randint_contract :: "(int \<Rightarrow> int \<Rightarrow> int) \<Rightarrow> bool" where
  "randint_contract rng = (\<forall>low high. low < high \<longrightarrow> low \<le> rng low high \<and> rng low high < high)"

section \<open>The run loop\<close>

text \<open>
  Python passes \<^verbatim>\<open>self\<close> and \<^verbatim>\<open>exe_path\<close> by reference, so a method can write to
  them. Every method is therefore a function from the pair \<open>(self, exe_path)\<close> to its
  result and the pair after the call.

  The body of \<^verbatim>\<open>while x is not None\<close> is the same text in all three classes that
  have it; \<^verbatim>\<open>self.get_next_x\<close> is the method of the class at hand:
  \<^verbatim>\<open>
      y = f(x)
      exe_path.x.append(x)
      exe_path.y.append(y)
      x = self.get_next_x(exe_path)
  \<close>
\<close>

type_synonym 's method_state = "'s \<times> exe_path"

type_synonym 's next_x_method = "'s method_state \<Rightarrow> (error + point option) \<times> 's method_state"

definition loop_body ::
  "'s next_x_method \<Rightarrow> (point \<Rightarrow> real) \<Rightarrow> 's method_state \<Rightarrow> point
     \<Rightarrow> (error + point option) \<times> 's method_state" where
  "loop_body get_next_x f s cur =
     (let (self, exe_path) = s;
          out = f cur;
          exe_path = exe_path\<lparr>x := x exe_path @ [cur]\<rparr>;
          exe_path = exe_path\<lparr>y := y exe_path @ [out]\<rparr>
      in get_next_x (self, exe_path))"

text \<open>
  The loop's configuration is the pair of the state and the loop variable \<open>x\<close>.
  \<open>loop_after get_next_x f c n\<close> is the configuration after \<open>n\<close> completed passes
  through the body, started in \<open>c\<close>; \<open>None\<close> when the loop has left before (the
  variable was \<^verbatim>\<open>None\<close>, or \<^verbatim>\<open>get_next_x\<close> raised).
\<close>

primrec loop_after ::
  "'s next_x_method \<Rightarrow> (point \<Rightarrow> real) \<Rightarrow> 's method_state \<times> point option \<Rightarrow> nat
     \<Rightarrow> ('s method_state \<times> point option) option" where
  "loop_after get_next_x f c 0 = Some c"
| "loop_after get_next_x f c (Suc n) =
     (case loop_after get_next_x f c n of
        None \<Rightarrow> None
      | Some (s, None) \<Rightarrow> None
      | Some (s, Some cur) \<Rightarrow>
          (case loop_body get_next_x f s cur of
             (Inl e, s') \<Rightarrow> None
           | (Inr next_x, s') \<Rightarrow> Some (s', next_x)))"

section \<open>LinearScan\<close>

text \<open>
  \<^verbatim>\<open>dict_to_namespace\<close> lives in \<^verbatim>\<open>bax/util/misc_util.py\<close>; it is a parameter
  of \<^verbatim>\<open>set_params\<close>. No statement of \<^verbatim>\<open>set_params\<close> raises: the result is
  always \<open>Inr\<close>.
\<close>

definition LinearScan_set_params :: "('raw \<Rightarrow> grid_config) \<Rightarrow> 'raw \<Rightarrow> error + grid_params" where
  "LinearScan_set_params dict_to_namespace raw =
     (let params = dict_to_namespace raw;
          default_x_path = map (\<lambda>v. [v]) (np_linspace 3.5 20 100)
      in Inr \<lparr>name = getattr (cfg_name params) ''LinearScan'',
              x_path = getattr (cfg_x_path params) default_x_path\<rparr>)"

text \<open>\<^verbatim>\<open>__init__\<close>: \<^verbatim>\<open>set_params\<close>, then an optional print that changes nothing.\<close>

definition LinearScan_init :: "('raw \<Rightarrow> grid_config) \<Rightarrow> 'raw \<Rightarrow> error + grid_params" where
  "LinearScan_init dict_to_namespace raw = LinearScan_set_params dict_to_namespace raw"

definition LinearScan_get_next_x :: "('a grid_params_scheme) next_x_method" where
  "LinearScan_get_next_x s =
     (let (self, exe_path) = s;
          len_path = length (x exe_path)
      in if len_path = length (x_path self) then (Inr None, s)
         else if len_path < length (x_path self) then (Inr (Some (x_path self ! len_path)), s)
         else (Inl IndexError, s))"

definition LinearScan_get_output_from_exe_path ::
  "'a grid_params_scheme method_state \<Rightarrow> real list \<times> 'a grid_params_scheme method_state" where
  "LinearScan_get_output_from_exe_path s = (let (self, exe_path) = s in (y exe_path, s))"

function LinearScan_loop ::
  "(point \<Rightarrow> real) \<Rightarrow> 'a grid_params_scheme method_state \<Rightarrow> point option
     \<Rightarrow> (error + unit) \<times> 'a grid_params_scheme method_state" where
  "LinearScan_loop f s next_x =
     (case next_x of
        None \<Rightarrow> (Inr (), s)
      | Some cur \<Rightarrow>
          (case loop_body LinearScan_get_next_x f s cur of
             (Inl e, s') \<Rightarrow> (Inl e, s')
           | (Inr next_x', s') \<Rightarrow> LinearScan_loop f s' next_x'))"
  by pat_completeness auto
termination
proof (relation "measure (\<lambda>(f, s, next_x).
          (length (x_path (fst s)) - length (x (snd s)))
          + (case next_x of None \<Rightarrow> 0 | Some _ \<Rightarrow> 1))")
qed (auto simp: loop_body_def LinearScan_get_next_x_def Let_def split: if_splits option.splits)

text \<open>
  \<^verbatim>\<open>run_algorithm_on_f\<close> returns \<^verbatim>\<open>(exe_path, output)\<close>; the model returns
  \<^verbatim>\<open>self\<close> after the call beside it.
\<close>

definition LinearScan_run_algorithm_on_f ::
  "(point \<Rightarrow> real) \<Rightarrow> 'a grid_params_scheme
     \<Rightarrow> (error + exe_path \<times> real list) \<times> 'a grid_params_scheme" where
  "LinearScan_run_algorithm_on_f f self =
     (let exe_path = \<lparr>x = [], y = []\<rparr>
      in case LinearScan_get_next_x (self, exe_path) of
           (Inl e, (self, exe_path)) \<Rightarrow> (Inl e, self)
         | (Inr next_x, s) \<Rightarrow>
             (case LinearScan_loop f s next_x of
                (Inl e, (self, exe_path)) \<Rightarrow> (Inl e, self)
              | (Inr _, s) \<Rightarrow>
                  (case LinearScan_get_output_from_exe_path s of
                     (output, (self, exe_path)) \<Rightarrow> (Inr (exe_path, output), self))))"

section \<open>LinearScanRandGap\<close>

text \<open>
  \<^verbatim>\<open>__init__\<close> calls the inherited one and then snapshots the grid:
  \<^verbatim>\<open>self.params.x_path_orig = copy.deepcopy(self.params.x_path)\<close>. Lists are values
  here, so the copy is the list itself: no statement of the module writes into a grid
  in place (the only writes in place are the two \<^verbatim>\<open>append\<close>s of the loop, to the
  lists of the path that the run has created), a grid changes only where an attribute
  is assigned.
\<close>

definition LinearScanRandGap_init ::
  "('raw \<Rightarrow> grid_config) \<Rightarrow> 'raw \<Rightarrow> error + randgap_params" where
  "LinearScanRandGap_init dict_to_namespace raw =
     (case LinearScan_init dict_to_namespace raw of
        Inl e \<Rightarrow> Inl e
      | Inr self \<Rightarrow>
          Inr \<lparr>name = name self, x_path = x_path self, x_path_orig = x_path self\<rparr>)"

text \<open>
  \<^verbatim>\<open>run_algorithm_on_f\<close> draws the size of a new grid, writes the new grid to
  \<^verbatim>\<open>self.params.x_path\<close> and calls the inherited method. \<^verbatim>\<open>np.linspace\<close> raises
  \<^verbatim>\<open>ValueError\<close> on a negative number of samples.
\<close>

definition LinearScanRandGap_run_algorithm_on_f ::
  "(int \<Rightarrow> int \<Rightarrow> int) \<Rightarrow> (point \<Rightarrow> real) \<Rightarrow> 'a randgap_params_scheme
     \<Rightarrow> (error + exe_path \<times> real list) \<times> 'a randgap_params_scheme" where
  "LinearScanRandGap_run_algorithm_on_f rng f self =
     (let x_path_copy = x_path_orig self;
          n_grid = length x_path_copy;
          rand_factor = 0.2;
          min_gap = np_ceil ((1 - rand_factor) * real n_grid);
          max_gap = np_ceil ((1 + rand_factor) * real n_grid)
      in case np_random_randint rng min_gap max_gap of
           Inl e \<Rightarrow> (Inl e, self)
         | Inr new_n_grid \<Rightarrow>
             (case np_min (concat x_path_copy) of
                Inl e \<Rightarrow> (Inl e, self)
              | Inr min_x_path \<Rightarrow>
                  (case np_max (concat x_path_copy) of
                     Inl e \<Rightarrow> (Inl e, self)
                   | Inr max_x_path \<Rightarrow>
                       if new_n_grid < 0 then (Inl ValueError, self)
                       else
                         (let new_x_path =
                                map (\<lambda>v. [v]) (np_linspace min_x_path max_x_path (nat new_n_grid));
                              self = self\<lparr>x_path := new_x_path\<rparr>
                          in LinearScan_run_algorithm_on_f f self))))"

text \<open>Several runs of one instance, each with its own draw and its own function.\<close>

fun LinearScanRandGap_runs ::
  "((int \<Rightarrow> int \<Rightarrow> int) \<times> (point \<Rightarrow> real)) list \<Rightarrow> 'a randgap_params_scheme
     \<Rightarrow> 'a randgap_params_scheme" where
  "LinearScanRandGap_runs [] self = self"
| "LinearScanRandGap_runs ((rng, f) # rest) self =
     LinearScanRandGap_runs rest (snd (LinearScanRandGap_run_algorithm_on_f rng f self))"

section \<open>AverageOutputs\<close>

definition AverageOutputs_set_params :: "('raw \<Rightarrow> grid_config) \<Rightarrow> 'raw \<Rightarrow> error + grid_params" where
  "AverageOutputs_set_params dict_to_namespace raw =
     (let params = dict_to_namespace raw;
          default_x_path = [[5.1], [5.3], [5.5], [20.1], [20.3], [20.5]]
      in Inr \<lparr>name = getattr (cfg_name params) ''AverageOutputs'',
              x_path = getattr (cfg_x_path params) default_x_path\<rparr>)"

definition AverageOutputs_get_next_x :: "('a grid_params_scheme) next_x_method" where
  "AverageOutputs_get_next_x s =
     (let (self, exe_path) = s;
          len_path = length (x exe_path)
      in if len_path = length (x_path self) then (Inr None, s)
         else if len_path < length (x_path self) then (Inr (Some (x_path self ! len_path)), s)
         else (Inl IndexError, s))"

definition AverageOutputs_get_output_from_exe_path ::
  "'a grid_params_scheme method_state \<Rightarrow> real option \<times> 'a grid_params_scheme method_state" where
  "AverageOutputs_get_output_from_exe_path s = (let (self, exe_path) = s in (np_mean (y exe_path), s))"

function AverageOutputs_loop ::
  "(point \<Rightarrow> real) \<Rightarrow> 'a grid_params_scheme method_state \<Rightarrow> point option
     \<Rightarrow> (error + unit) \<times> 'a grid_params_scheme method_state" where
  "AverageOutputs_loop f s next_x =
     (case next_x of
        None \<Rightarrow> (Inr (), s)
      | Some cur \<Rightarrow>
          (case loop_body AverageOutputs_get_next_x f s cur of
             (Inl e, s') \<Rightarrow> (Inl e, s')
           | (Inr next_x', s') \<Rightarrow> AverageOutputs_loop f s' next_x'))"
  by pat_completeness auto
termination
proof (relation "measure (\<lambda>(f, s, next_x).
          (length (x_path (fst s)) - length (x (snd s)))
          + (case next_x of None \<Rightarrow> 0 | Some _ \<Rightarrow> 1))")
qed (auto simp: loop_body_def AverageOutputs_get_next_x_def Let_def split: if_splits option.splits)

definition AverageOutputs_run_algorithm_on_f ::
  "(point \<Rightarrow> real) \<Rightarrow> 'a grid_params_scheme
     \<Rightarrow> (error + exe_path \<times> real option) \<times> 'a grid_params_scheme" where
  "AverageOutputs_run_algorithm_on_f f self =
     (let exe_path = \<lparr>x = [], y = []\<rparr>
      in case AverageOutputs_get_next_x (self, exe_path) of
           (Inl e, (self, exe_path)) \<Rightarrow> (Inl e, self)
         | (Inr next_x, s) \<Rightarrow>
             (case AverageOutputs_loop f s next_x of
                (Inl e, (self, exe_path)) \<Rightarrow> (Inl e, self)
              | (Inr _, s) \<Rightarrow>
                  (case AverageOutputs_get_output_from_exe_path s of
                     (output, (self, exe_path)) \<Rightarrow> (Inr (exe_path, output), self))))"

section \<open>OptRightScan\<close>

definition OptRightScan_set_params :: "('raw \<Rightarrow> ors_config) \<Rightarrow> 'raw \<Rightarrow> error + ors_params" where
  "OptRightScan_set_params dict_to_namespace raw =
     (let params = dict_to_namespace raw
      in Inr \<lparr>name = getattr (cfg_name params) ''OptRightScan'',
              init_x = getattr (cfg_init_x params) [4.0],
              x_grid_gap = getattr (cfg_x_grid_gap params) 0.1,
              conv_thresh = getattr (cfg_conv_thresh params) 0.2,
              max_iter = getattr (cfg_max_iter params) 100\<rparr>)"

text \<open>
  \<^verbatim>\<open>get_next_x\<close> in the order of the source: the candidate (\<^verbatim>\<open>exe_path.x[-1][0]\<close>
  raises \<^verbatim>\<open>IndexError\<close> on a point with no coordinate), then the convergence test
  (\<^verbatim>\<open>np.min(exe_path.y[:-1])\<close> raises \<^verbatim>\<open>ValueError\<close> when \<^verbatim>\<open>y\<close> has fewer than two
  outputs; once it has returned, \<^verbatim>\<open>exe_path.y[-1]\<close> exists), then the cap.
\<close>

definition OptRightScan_get_next_x :: "('a ors_params_scheme) next_x_method" where
  "OptRightScan_get_next_x s =
     (let (self, exe_path) = s;
          len_path = length (x exe_path)
      in case (if len_path = 0 then Inr (Some (init_x self))
               else (case last (x exe_path) of
                       [] \<Rightarrow> Inl IndexError
                     | x0 # _ \<Rightarrow> Inr (Some [x0 + x_grid_gap self]))) of
           Inl e \<Rightarrow> (Inl e, s)
         | Inr next_x \<Rightarrow>
             (case (if len_path \<ge> 2 then
                      (case np_min (butlast (y exe_path)) of
                         Inl e \<Rightarrow> Inl e
                       | Inr m \<Rightarrow>
                           (let conv_max_val = m + conv_thresh self
                            in if last (y exe_path) > conv_max_val then Inr None
                               else Inr next_x))
                    else Inr next_x) of
                Inl e \<Rightarrow> (Inl e, s)
              | Inr next_x \<Rightarrow>
                  if int len_path > max_iter self then (Inr None, s) else (Inr next_x, s)))"

text \<open>\<^verbatim>\<open>exe_path.x[-1]\<close> raises \<^verbatim>\<open>IndexError\<close> on an empty path.\<close>

definition OptRightScan_get_output_from_exe_path ::
  "'a ors_params_scheme method_state \<Rightarrow> (error + point) \<times> 'a ors_params_scheme method_state" where
  "OptRightScan_get_output_from_exe_path s =
     (let (self, exe_path) = s
      in if x exe_path = [] then (Inl IndexError, s) else (Inr (last (x exe_path)), s))"

function OptRightScan_loop ::
  "(point \<Rightarrow> real) \<Rightarrow> 'a ors_params_scheme method_state \<Rightarrow> point option
     \<Rightarrow> (error + unit) \<times> 'a ors_params_scheme method_state" where
  "OptRightScan_loop f s next_x =
     (case next_x of
        None \<Rightarrow> (Inr (), s)
      | Some cur \<Rightarrow>
          (case loop_body OptRightScan_get_next_x f s cur of
             (Inl e, s') \<Rightarrow> (Inl e, s')
           | (Inr next_x', s') \<Rightarrow> OptRightScan_loop f s' next_x'))"
  by pat_completeness auto
termination
proof (relation "measure (\<lambda>(f, s, next_x).
          nat (max_iter (fst s) + 1 - int (length (x (snd s))))
          + (case next_x of None \<Rightarrow> 0 | Some _ \<Rightarrow> 1))")
qed (auto simp: loop_body_def OptRightScan_get_next_x_def Let_def
       split: if_splits option.splits sum.splits list.splits)

definition OptRightScan_run_algorithm_on_f ::
  "(point \<Rightarrow> real) \<Rightarrow> 'a ors_params_scheme
     \<Rightarrow> (error + exe_path \<times> point) \<times> 'a ors_params_scheme" where
  "OptRightScan_run_algorithm_on_f f self =
     (let exe_path = \<lparr>x = [], y = []\<rparr>
      in case OptRightScan_get_next_x (self, exe_path) of
           (Inl e, (self, exe_path)) \<Rightarrow> (Inl e, self)
         | (Inr next_x, s) \<Rightarrow>
             (case OptRightScan_loop f s next_x of
                (Inl e, (self, exe_path)) \<Rightarrow> (Inl e, self)
              | (Inr _, s) \<Rightarrow>
                  (case OptRightScan_get_output_from_exe_path s of
                     (Inl e, (self, exe_path)) \<Rightarrow> (Inl e, self)
                   | (Inr output, (self, exe_path)) \<Rightarrow> (Inr (exe_path, output), self))))"

section \<open>The grid walk of LinearScan\<close>

lemma LinearScan_get_next_x_frame: "snd (LinearScan_get_next_x s) = s"
  by (simp add: LinearScan_get_next_x_def Let_def split: prod.splits)

lemma LinearScan_get_next_x_in_grid:
  "length (x ep) \<le> length (x_path self) \<Longrightarrow>
   LinearScan_get_next_x (self, ep) =
     (Inr (if length (x ep) = length (x_path self) then None
           else Some (x_path self ! length (x ep))), (self, ep))"
  by (simp add: LinearScan_get_next_x_def Let_def)

text \<open>
  Started anywhere inside the grid with the loop variable that \<^verbatim>\<open>get_next_x\<close> gives
  there, the loop appends the rest of the grid and the values of \<open>f\<close> on it.
\<close>

lemma LinearScan_loop_scan:
  "length (x ep) \<le> length (x_path self) \<Longrightarrow>
   LinearScan_loop f (self, ep)
       (if length (x ep) = length (x_path self) then None
        else Some (x_path self ! length (x ep))) =
     (Inr (), (self, ep\<lparr>x := x ep @ drop (length (x ep)) (x_path self),
                         y := y ep @ map f (drop (length (x ep)) (x_path self))\<rparr>))"
proof (induction "length (x_path self) - length (x ep)" arbitrary: ep)
  case 0
  then show ?case by simp
next
  case (Suc k)
  let ?n = "length (x ep)"
  let ?g = "x_path self"
  let ?ep = "ep\<lparr>x := x ep @ [?g ! ?n], y := y ep @ [f (?g ! ?n)]\<rparr>"
  from Suc.hyps(2) have lt: "?n < length ?g" by simp
  have k: "k = length ?g - length (x ?ep)" using Suc.hyps(2) by simp
  have le: "length (x ?ep) \<le> length ?g" using lt by simp
  have body: "loop_body LinearScan_get_next_x f (self, ep) (?g ! ?n) =
      (Inr (if length (x ?ep) = length ?g then None else Some (?g ! length (x ?ep))), (self, ?ep))"
    using LinearScan_get_next_x_in_grid [OF le] by (simp add: loop_body_def)
  have "LinearScan_loop f (self, ep) (Some (?g ! ?n)) =
        LinearScan_loop f (self, ?ep)
          (if length (x ?ep) = length ?g then None else Some (?g ! length (x ?ep)))"
    by (subst LinearScan_loop.simps) (simp only: body option.case prod.case sum.case)
  also have "\<dots> = (Inr (), (self, ?ep\<lparr>x := x ?ep @ drop (length (x ?ep)) ?g,
                         y := y ?ep @ map f (drop (length (x ?ep)) ?g)\<rparr>))"
    by (rule Suc.hyps(1) [OF k le])
  also have "\<dots> = (Inr (), (self, ep\<lparr>x := x ep @ drop ?n ?g, y := y ep @ map f (drop ?n ?g)\<rparr>))"
    using lt by (simp add: Cons_nth_drop_Suc [symmetric])
  finally show ?case using lt by simp
qed

lemma LinearScan_run_scan:
  "LinearScan_run_algorithm_on_f f self =
     (Inr (\<lparr>x = x_path self, y = map f (x_path self)\<rparr>, map f (x_path self)), self)"
proof -
  let ?e = "\<lparr>x = [], y = []\<rparr>"
  have le: "length (x ?e) \<le> length (x_path self)" by simp
  show ?thesis
    unfolding LinearScan_run_algorithm_on_f_def Let_def
    using LinearScan_get_next_x_in_grid [OF le] LinearScan_loop_scan [OF le, of f]
    by (simp add: LinearScan_get_output_from_exe_path_def)
qed

lemma LinearScan_after:
  "k \<le> length (x_path self) \<Longrightarrow>
   loop_after LinearScan_get_next_x f
       ((self, \<lparr>x = [], y = []\<rparr>),
        if 0 = length (x_path self) then None else Some (x_path self ! 0)) k =
     Some ((self, \<lparr>x = take k (x_path self), y = map f (take k (x_path self))\<rparr>),
           if k = length (x_path self) then None else Some (x_path self ! k))"
proof (induction k)
  case 0
  then show ?case by simp
next
  case (Suc k)
  let ?g = "x_path self"
  let ?ep = "\<lparr>x = take (Suc k) ?g, y = map f (take (Suc k) ?g)\<rparr>"
  have le: "length (x ?ep) \<le> length ?g" by simp
  from Suc.prems have lt: "k < length ?g" by simp
  show ?case
    using Suc.IH lt LinearScan_get_next_x_in_grid [OF le]
    by (simp add: loop_body_def take_Suc_conv_app_nth min_def)
qed

text \<open>
  C1. For every grid \<open>x_path self\<close> and every function \<open>f\<close>, a run of LinearScan raises
  nothing and leaves \<^verbatim>\<open>self\<close> as it was; the inputs it has queried, in the order of
  the queries, are the grid (the path records each point on which \<open>f\<close> was called, so
  \<open>f\<close> was called \<open>length (x_path self)\<close> times, on the grid points in grid order); the
  recorded outputs and the returned output are the list of the values of \<open>f\<close> on the
  grid; and the loop variable is \<^verbatim>\<open>None\<close> after exactly \<open>length (x_path self)\<close>
  passes through the loop body, not before.
\<close>

theorem LinearScan_run_outputs_on_grid:
  "LinearScan_run_algorithm_on_f f self =
     (Inr (\<lparr>x = x_path self, y = map f (x_path self)\<rparr>, map f (x_path self)), self)
   \<and> (case LinearScan_get_next_x (self, \<lparr>x = [], y = []\<rparr>) of
        (Inl e, s) \<Rightarrow> False
      | (Inr next_x, s) \<Rightarrow>
          loop_after LinearScan_get_next_x f (s, next_x) (length (x_path self)) =
            Some ((self, \<lparr>x = x_path self, y = map f (x_path self)\<rparr>), None))"
proof -
  let ?e = "\<lparr>x = [], y = []\<rparr>"
  have le: "length (x ?e) \<le> length (x_path self)" by simp
  have run: "LinearScan_run_algorithm_on_f f self =
     (Inr (\<lparr>x = x_path self, y = map f (x_path self)\<rparr>, map f (x_path self)), self)"
    by (rule LinearScan_run_scan)
  have steps: "(case LinearScan_get_next_x (self, ?e) of
        (Inl e, s) \<Rightarrow> False
      | (Inr next_x, s) \<Rightarrow>
          loop_after LinearScan_get_next_x f (s, next_x) (length (x_path self)) =
            Some ((self, \<lparr>x = x_path self, y = map f (x_path self)\<rparr>), None))"
    using LinearScan_get_next_x_in_grid [OF le]
      LinearScan_after [of "length (x_path self)" self f]
    by (cases "x_path self = []") simp_all
  from run steps show ?thesis by simp
qed

section \<open>The point walk of AverageOutputs\<close>

lemma AverageOutputs_get_next_x_frame: "snd (AverageOutputs_get_next_x s) = s"
  by (simp add: AverageOutputs_get_next_x_def Let_def split: prod.splits)

lemma AverageOutputs_get_next_x_in_grid:
  "length (x ep) \<le> length (x_path self) \<Longrightarrow>
   AverageOutputs_get_next_x (self, ep) =
     (Inr (if length (x ep) = length (x_path self) then None
           else Some (x_path self ! length (x ep))), (self, ep))"
  by (simp add: AverageOutputs_get_next_x_def Let_def)

lemma AverageOutputs_loop_scan:
  "length (x ep) \<le> length (x_path self) \<Longrightarrow>
   AverageOutputs_loop f (self, ep)
       (if length (x ep) = length (x_path self) then None
        else Some (x_path self ! length (x ep))) =
     (Inr (), (self, ep\<lparr>x := x ep @ drop (length (x ep)) (x_path self),
                         y := y ep @ map f (drop (length (x ep)) (x_path self))\<rparr>))"
proof (induction "length (x_path self) - length (x ep)" arbitrary: ep)
  case 0
  then show ?case by simp
next
  case (Suc k)
  define n where "n = length (x ep)"
  define pt where "pt = x_path self ! n"
  define ep1 where "ep1 = ep\<lparr>x := x ep @ [pt], y := y ep @ [f pt]\<rparr>"
  from Suc.hyps(2) have lt: "n < length (x_path self)" by (simp add: n_def)
  have len1: "length (x ep1) = Suc n" by (simp add: ep1_def n_def)
  have k: "k = length (x_path self) - length (x ep1)" using Suc.hyps(2) len1 n_def by simp
  have le: "length (x ep1) \<le> length (x_path self)" using lt len1 by simp
  have body: "loop_body AverageOutputs_get_next_x f (self, ep) pt =
      (Inr (if length (x ep1) = length (x_path self) then None
            else Some (x_path self ! length (x ep1))), (self, ep1))"
    using AverageOutputs_get_next_x_in_grid [OF le] by (simp add: loop_body_def ep1_def)
  have "AverageOutputs_loop f (self, ep) (Some pt) =
        AverageOutputs_loop f (self, ep1)
          (if length (x ep1) = length (x_path self) then None
           else Some (x_path self ! length (x ep1)))"
    by (subst AverageOutputs_loop.simps) (simp only: body option.case prod.case sum.case)
  also have "\<dots> = (Inr (), (self, ep1\<lparr>x := x ep1 @ drop (length (x ep1)) (x_path self),
                         y := y ep1 @ map f (drop (length (x ep1)) (x_path self))\<rparr>))"
    by (rule Suc.hyps(1) [OF k le])
  also have "\<dots> = (Inr (), (self, ep\<lparr>x := x ep @ drop n (x_path self),
                         y := y ep @ map f (drop n (x_path self))\<rparr>))"
    using lt by (simp add: ep1_def pt_def n_def Cons_nth_drop_Suc [symmetric])
  finally show ?case using lt by (simp add: n_def pt_def)
qed

lemma AverageOutputs_run_scan:
  "AverageOutputs_run_algorithm_on_f f self =
     (Inr (\<lparr>x = x_path self, y = map f (x_path self)\<rparr>, np_mean (map f (x_path self))), self)"
proof -
  let ?e = "\<lparr>x = [], y = []\<rparr>"
  have le: "length (x ?e) \<le> length (x_path self)" by simp
  show ?thesis
    unfolding AverageOutputs_run_algorithm_on_f_def Let_def
    using AverageOutputs_get_next_x_in_grid [OF le] AverageOutputs_loop_scan [OF le, of f]
    by (simp add: AverageOutputs_get_output_from_exe_path_def)
qed

text \<open>
  C4. For every function \<open>f\<close> and every configured list of points, a run of
  AverageOutputs raises nothing, queries exactly the configured points in their order
  (path \<open>x\<close> is the list of points, path \<open>y\<close> the values of \<open>f\<close> on them) and returns
  \<^verbatim>\<open>np.mean\<close> of the observed outputs; when the list of points is not empty this is
  the single number: the sum of the values of \<open>f\<close> on the points divided by the number
  of points.
\<close>

theorem AverageOutputs_run_mean:
  "AverageOutputs_run_algorithm_on_f f self =
     (Inr (\<lparr>x = x_path self, y = map f (x_path self)\<rparr>, np_mean (map f (x_path self))), self)
   \<and> (x_path self \<noteq> [] \<longrightarrow>
        snd (projr (fst (AverageOutputs_run_algorithm_on_f f self))) =
          Some (sum_list (map f (x_path self)) / real (length (x_path self))))"
proof -
  have run: "AverageOutputs_run_algorithm_on_f f self =
     (Inr (\<lparr>x = x_path self, y = map f (x_path self)\<rparr>, np_mean (map f (x_path self))), self)"
    by (rule AverageOutputs_run_scan)
  have "x_path self \<noteq> [] \<longrightarrow>
        np_mean (map f (x_path self)) =
          Some (sum_list (map f (x_path self)) / real (length (x_path self)))"
    by (simp add: np_mean_def)
  with run show ?thesis by simp
qed

theorem AverageOutputs_run_mean_witness:
  "AverageOutputs_run_algorithm_on_f (\<lambda>pt. 2 * hd pt)
       \<lparr>name = ''AverageOutputs'', x_path = [[1], [2], [6]]\<rparr> =
     (Inr (\<lparr>x = [[1], [2], [6]], y = [2, 4, 12]\<rparr>, Some 6),
      \<lparr>name = ''AverageOutputs'', x_path = [[1], [2], [6]]\<rparr>)
   \<and> x_path \<lparr>name = ''AverageOutputs'', x_path = [[1], [2], [6]]\<rparr> \<noteq> []"
  using AverageOutputs_run_mean
    [of "\<lambda>pt. 2 * hd pt" "\<lparr>name = ''AverageOutputs'', x_path = [[1], [2], [6]]\<rparr>"]
  by (simp add: np_mean_def)

section \<open>What get_next_x leaves alone\<close>

lemma OptRightScan_get_next_x_frame: "snd (OptRightScan_get_next_x s) = s"
  by (simp add: OptRightScan_get_next_x_def Let_def split: prod.splits sum.splits list.splits)

text \<open>
  C8. For each variant and every pair \<open>s\<close> of an instance and an execution path: a call
  of \<^verbatim>\<open>get_next_x\<close> on \<open>s\<close> gives a value \<open>v1\<close> and the pair \<open>s1\<close>, a second call
  on what the first has left gives \<open>v2\<close> and \<open>s2\<close>; then \<open>v2 = v1\<close> (a raised error
  counts as the value) and \<open>s1 = s\<close> and \<open>s2 = s\<close>: neither the path nor the parameters
  have changed. LinearScanRandGap inherits the method of LinearScan, which it runs on
  its own parameter record.
\<close>

theorem get_next_x_twice:
  "(case LinearScan_get_next_x s of (v1, s1) \<Rightarrow>
      case LinearScan_get_next_x s1 of (v2, s2) \<Rightarrow> v2 = v1 \<and> s1 = s \<and> s2 = s)
   \<and> (case LinearScan_get_next_x (r :: randgap_params method_state) of (v1, r1) \<Rightarrow>
      case LinearScan_get_next_x r1 of (v2, r2) \<Rightarrow> v2 = v1 \<and> r1 = r \<and> r2 = r)
   \<and> (case AverageOutputs_get_next_x a of (v1, a1) \<Rightarrow>
      case AverageOutputs_get_next_x a1 of (v2, a2) \<Rightarrow> v2 = v1 \<and> a1 = a \<and> a2 = a)
   \<and> (case OptRightScan_get_next_x t of (v1, t1) \<Rightarrow>
      case OptRightScan_get_next_x t1 of (v2, t2) \<Rightarrow> v2 = v1 \<and> t1 = t \<and> t2 = t)"
proof -
  have twice: "(case g s of (v1, s1) \<Rightarrow> case g s1 of (v2, s2) \<Rightarrow> v2 = v1 \<and> s1 = s \<and> s2 = s)"
    if "\<And>s. snd (g s) = s"
    for g :: "'s \<Rightarrow> 'v \<times> 's" and s
    using that [of s] by (simp add: case_prod_unfold)
  show ?thesis
    by (intro conjI twice LinearScan_get_next_x_frame AverageOutputs_get_next_x_frame
          OptRightScan_get_next_x_frame)
qed

section \<open>The path during a run\<close>

lemma loop_body_appends:
  assumes frame: "\<And>s. snd (get_next_x s) = s"
  shows "snd (loop_body get_next_x f (self, ep) cur) =
           (self, ep\<lparr>x := x ep @ [cur], y := y ep @ [f cur]\<rparr>)"
  by (simp add: loop_body_def frame)

lemma loop_after_Suc_Some:
  assumes frame: "\<And>s. snd (get_next_x s) = s"
    and step: "loop_after get_next_x f c (Suc n) = Some ((self', ep'), next_x')"
  shows "\<exists>ep cur. loop_after get_next_x f c n = Some ((self', ep), Some cur)
           \<and> x ep' = x ep @ [cur] \<and> y ep' = y ep @ [f cur]"
proof -
  from step obtain s cur where n: "loop_after get_next_x f c n = Some (s, Some cur)"
    by (auto split: option.splits prod.splits)
  obtain self ep where s: "s = (self, ep)" by (cases s)
  from step n s have b: "loop_body get_next_x f (self, ep) cur = (Inr next_x', (self', ep'))"
    by (auto split: sum.splits prod.splits)
  from loop_body_appends [OF frame, of f self ep cur] b
  have "(self', ep') = (self, ep\<lparr>x := x ep @ [cur], y := y ep @ [f cur]\<rparr>)" by simp
  with n s show ?thesis by simp
qed

lemma loop_after_path:
  assumes frame: "\<And>s. snd (get_next_x s) = s"
  shows "loop_after get_next_x f ((self, ep0), next_x0) n = Some ((self', ep'), next_x') \<Longrightarrow>
         self' = self \<and> length (x ep') = length (x ep0) + n \<and> length (y ep') = length (y ep0) + n
         \<and> take (length (x ep0)) (x ep') = x ep0 \<and> take (length (y ep0)) (y ep') = y ep0
         \<and> drop (length (y ep0)) (y ep') = map f (drop (length (x ep0)) (x ep'))"
proof (induction n arbitrary: self' ep' next_x')
  case 0
  then show ?case by simp
next
  case (Suc n)
  from loop_after_Suc_Some [OF frame Suc.prems]
  obtain ep cur where
    n: "loop_after get_next_x f ((self, ep0), next_x0) n = Some ((self', ep), Some cur)"
    and xs: "x ep' = x ep @ [cur]" and ys: "y ep' = y ep @ [f cur]" by blast
  from Suc.IH [OF n] xs ys show ?case by simp
qed

lemma loop_after_earlier:
  assumes frame: "\<And>s. snd (get_next_x s) = s"
  shows "loop_after get_next_x f c n = Some ((self', ep'), next_x') \<Longrightarrow> m \<le> n \<Longrightarrow>
         \<exists>ep next_x. loop_after get_next_x f c m = Some ((self', ep), next_x)
            \<and> x ep = take (length (x ep') - (n - m)) (x ep')
            \<and> y ep = take (length (y ep') - (n - m)) (y ep')"
proof (induction n arbitrary: ep' next_x')
  case 0
  then show ?case by simp
next
  case (Suc n)
  show ?case
  proof (cases "m = Suc n")
    case True
    with Suc.prems show ?thesis by simp
  next
    case False
    with Suc.prems have le: "m \<le> n" by simp
    from loop_after_Suc_Some [OF frame Suc.prems(1)]
    obtain ep cur where n: "loop_after get_next_x f c n = Some ((self', ep), Some cur)"
      and xs: "x ep' = x ep @ [cur]" and ys: "y ep' = y ep @ [f cur]" by blast
    from Suc.IH [OF n le] obtain epm nxm where
      m: "loop_after get_next_x f c m = Some ((self', epm), nxm)"
      and mx: "x epm = take (length (x ep) - (n - m)) (x ep)"
      and my: "y epm = take (length (y ep) - (n - m)) (y ep)" by blast
    have "length (x ep') - (Suc n - m) = length (x ep) - (n - m)" using xs le by simp
    moreover have "length (y ep') - (Suc n - m) = length (y ep) - (n - m)" using ys le by simp
    ultimately show ?thesis using m mx my xs ys by simp
  qed
qed

text \<open>
  From the empty path: after \<open>n\<close> passes both lists have \<open>n\<close> elements, the outputs are the
  values of \<open>f\<close> on the inputs, and the path after \<open>m \<le> n\<close> passes was the first \<open>m\<close>
  pairs of it.
\<close>

lemma loop_after_from_empty:
  assumes frame: "\<And>s. snd (get_next_x s) = s"
    and n: "loop_after get_next_x f ((self, \<lparr>x = [], y = []\<rparr>), next_x0) n = Some ((self', ep'), next_x')"
  shows "self' = self \<and> length (x ep') = n \<and> length (y ep') = n \<and> y ep' = map f (x ep')
       \<and> (\<forall>m\<le>n. \<exists>next_x. loop_after get_next_x f ((self, \<lparr>x = [], y = []\<rparr>), next_x0) m =
             Some ((self, \<lparr>x = take m (x ep'), y = take m (y ep')\<rparr>), next_x))"
proof -
  from loop_after_path [OF frame n]
  have basic: "self' = self" "length (x ep') = n" "length (y ep') = n" "y ep' = map f (x ep')"
    by simp_all
  have "\<exists>next_x. loop_after get_next_x f ((self, \<lparr>x = [], y = []\<rparr>), next_x0) m =
             Some ((self, \<lparr>x = take m (x ep'), y = take m (y ep')\<rparr>), next_x)"
    if "m \<le> n" for m
  proof -
    from loop_after_earlier [OF frame n that] obtain ep next_x where
      m: "loop_after get_next_x f ((self, \<lparr>x = [], y = []\<rparr>), next_x0) m = Some ((self', ep), next_x)"
      and mx: "x ep = take (length (x ep') - (n - m)) (x ep')"
      and my: "y ep = take (length (y ep') - (n - m)) (y ep')" by blast
    have "ep = \<lparr>x = take m (x ep'), y = take m (y ep')\<rparr>"
      using mx my basic(2,3) that by simp
    with m basic(1) show ?thesis by simp
  qed
  with basic show ?thesis by simp
qed

lemma loop_after_front:
  "loop_body get_next_x f s cur = (Inr next_x', s') \<Longrightarrow>
   loop_after get_next_x f (s, Some cur) (Suc n) = loop_after get_next_x f (s', next_x') n"
proof (induction n)
  case 0
  then show ?case by simp
next
  case (Suc n)
  then have IH: "loop_after get_next_x f (s, Some cur) (Suc n) =
      loop_after get_next_x f (s', next_x') n"
    by simp
  show ?case
    by (simp del: loop_after.simps
          add: loop_after.simps(2) [of _ _ "(s, Some cur)" "Suc n"]
               loop_after.simps(2) [of _ _ "(s', next_x')" n] IH)
qed

text \<open>Where a loop ends without an error, it ends in a configuration of \<open>loop_after\<close>.\<close>

lemma LinearScan_loop_after:
  "LinearScan_loop f s next_x = (Inr u, s') \<Longrightarrow>
   \<exists>n. loop_after LinearScan_get_next_x f (s, next_x) n = Some (s', None)"
proof (induction f s next_x rule: LinearScan_loop.induct)
  case (1 f s next_x)
  show ?case
  proof (cases next_x)
    case None
    with "1.prems" have "s' = s" by simp
    with None have "loop_after LinearScan_get_next_x f (s, next_x) 0 = Some (s', None)" by simp
    then show ?thesis ..
  next
    case (Some cur)
    obtain r s1 where b: "loop_body LinearScan_get_next_x f s cur = (r, s1)" by (metis surj_pair)
    from "1.prems" Some b obtain nx where r: "r = Inr nx"
      and rec: "LinearScan_loop f s1 nx = (Inr u, s')"
      by (cases r) (simp_all)
    from "1.IH" [OF Some b [symmetric] r rec]
    obtain n where "loop_after LinearScan_get_next_x f (s1, nx) n = Some (s', None)" ..
    with loop_after_front [of LinearScan_get_next_x f s cur nx s1 n] b r Some
    have "loop_after LinearScan_get_next_x f (s, next_x) (Suc n) = Some (s', None)" by simp
    then show ?thesis ..
  qed
qed

lemma AverageOutputs_loop_after:
  "AverageOutputs_loop f s next_x = (Inr u, s') \<Longrightarrow>
   \<exists>n. loop_after AverageOutputs_get_next_x f (s, next_x) n = Some (s', None)"
proof (induction f s next_x rule: AverageOutputs_loop.induct)
  case (1 f s next_x)
  show ?case
  proof (cases next_x)
    case None
    with "1.prems" have "s' = s" by simp
    with None have "loop_after AverageOutputs_get_next_x f (s, next_x) 0 = Some (s', None)" by simp
    then show ?thesis ..
  next
    case (Some cur)
    obtain r s1 where b: "loop_body AverageOutputs_get_next_x f s cur = (r, s1)" by (metis surj_pair)
    from "1.prems" Some b obtain nx where r: "r = Inr nx"
      and rec: "AverageOutputs_loop f s1 nx = (Inr u, s')"
      by (cases r) (simp_all)
    from "1.IH" [OF Some b [symmetric] r rec]
    obtain n where "loop_after AverageOutputs_get_next_x f (s1, nx) n = Some (s', None)" ..
    with loop_after_front [of AverageOutputs_get_next_x f s cur nx s1 n] b r Some
    have "loop_after AverageOutputs_get_next_x f (s, next_x) (Suc n) = Some (s', None)" by simp
    then show ?thesis ..
  qed
qed

lemma OptRightScan_loop_after:
  "OptRightScan_loop f s next_x = (Inr u, s') \<Longrightarrow>
   \<exists>n. loop_after OptRightScan_get_next_x f (s, next_x) n = Some (s', None)"
proof (induction f s next_x rule: OptRightScan_loop.induct)
  case (1 f s next_x)
  show ?case
  proof (cases next_x)
    case None
    with "1.prems" have "s' = s" by simp
    with None have "loop_after OptRightScan_get_next_x f (s, next_x) 0 = Some (s', None)" by simp
    then show ?thesis ..
  next
    case (Some cur)
    obtain r s1 where b: "loop_body OptRightScan_get_next_x f s cur = (r, s1)" by (metis surj_pair)
    from "1.prems" Some b obtain nx where r: "r = Inr nx"
      and rec: "OptRightScan_loop f s1 nx = (Inr u, s')"
      by (cases r) (simp_all)
    from "1.IH" [OF Some b [symmetric] r rec]
    obtain n where "loop_after OptRightScan_get_next_x f (s1, nx) n = Some (s', None)" ..
    with loop_after_front [of OptRightScan_get_next_x f s cur nx s1 n] b r Some
    have "loop_after OptRightScan_get_next_x f (s, next_x) (Suc n) = Some (s', None)" by simp
    then show ?thesis ..
  qed
qed

lemma LinearScan_run_after:
  assumes "LinearScan_run_algorithm_on_f f self = (Inr (ep, out), self')"
  shows "\<exists>n next_x0.
           LinearScan_get_next_x (self, \<lparr>x = [], y = []\<rparr>) = (Inr next_x0, (self, \<lparr>x = [], y = []\<rparr>))
         \<and> loop_after LinearScan_get_next_x f ((self, \<lparr>x = [], y = []\<rparr>), next_x0) n =
             Some ((self', ep), None)"
proof -
  let ?s = "(self, \<lparr>x = [], y = []\<rparr>)"
  obtain r0 where g: "LinearScan_get_next_x ?s = (r0, ?s)"
    using LinearScan_get_next_x_frame [of ?s] by (metis prod.collapse)
  from assms g obtain nx0 where r0: "r0 = Inr nx0"
    by (cases r0) (simp_all add: LinearScan_run_algorithm_on_f_def)
  obtain r1 s1 where l: "LinearScan_loop f ?s nx0 = (r1, s1)" by (metis surj_pair)
  obtain self1 ep1 where s1: "s1 = (self1, ep1)" by (cases s1)
  from assms g r0 l s1 obtain u where r1: "r1 = Inr u"
    by (cases r1) (simp_all add: LinearScan_run_algorithm_on_f_def del: LinearScan_loop.simps)
  from assms g r0 l s1 r1 have fin: "self' = self1" "ep = ep1"
    by (simp_all add: LinearScan_run_algorithm_on_f_def LinearScan_get_output_from_exe_path_def
          del: LinearScan_loop.simps)
  from LinearScan_loop_after [of f ?s nx0 u s1] l r1
  obtain n where "loop_after LinearScan_get_next_x f (?s, nx0) n = Some (s1, None)" by blast
  with g r0 s1 fin show ?thesis by blast
qed

lemma AverageOutputs_run_after:
  assumes "AverageOutputs_run_algorithm_on_f f self = (Inr (ep, out), self')"
  shows "\<exists>n next_x0.
           AverageOutputs_get_next_x (self, \<lparr>x = [], y = []\<rparr>) = (Inr next_x0, (self, \<lparr>x = [], y = []\<rparr>))
         \<and> loop_after AverageOutputs_get_next_x f ((self, \<lparr>x = [], y = []\<rparr>), next_x0) n =
             Some ((self', ep), None)"
proof -
  let ?s = "(self, \<lparr>x = [], y = []\<rparr>)"
  obtain r0 where g: "AverageOutputs_get_next_x ?s = (r0, ?s)"
    using AverageOutputs_get_next_x_frame [of ?s] by (metis prod.collapse)
  from assms g obtain nx0 where r0: "r0 = Inr nx0"
    by (cases r0) (simp_all add: AverageOutputs_run_algorithm_on_f_def)
  obtain r1 s1 where l: "AverageOutputs_loop f ?s nx0 = (r1, s1)" by (metis surj_pair)
  obtain self1 ep1 where s1: "s1 = (self1, ep1)" by (cases s1)
  from assms g r0 l s1 obtain u where r1: "r1 = Inr u"
    by (cases r1) (simp_all add: AverageOutputs_run_algorithm_on_f_def del: AverageOutputs_loop.simps)
  from assms g r0 l s1 r1 have fin: "self' = self1" "ep = ep1"
    by (simp_all add: AverageOutputs_run_algorithm_on_f_def AverageOutputs_get_output_from_exe_path_def
          del: AverageOutputs_loop.simps)
  from AverageOutputs_loop_after [of f ?s nx0 u s1] l r1
  obtain n where "loop_after AverageOutputs_get_next_x f (?s, nx0) n = Some (s1, None)" by blast
  with g r0 s1 fin show ?thesis by blast
qed

lemma OptRightScan_run_after:
  assumes "OptRightScan_run_algorithm_on_f f self = (Inr (ep, out), self')"
  shows "\<exists>n next_x0.
           OptRightScan_get_next_x (self, \<lparr>x = [], y = []\<rparr>) = (Inr next_x0, (self, \<lparr>x = [], y = []\<rparr>))
         \<and> loop_after OptRightScan_get_next_x f ((self, \<lparr>x = [], y = []\<rparr>), next_x0) n =
             Some ((self', ep), None)"
proof -
  let ?s = "(self, \<lparr>x = [], y = []\<rparr>)"
  obtain r0 where g: "OptRightScan_get_next_x ?s = (r0, ?s)"
    using OptRightScan_get_next_x_frame [of ?s] by (metis prod.collapse)
  from assms g obtain nx0 where r0: "r0 = Inr nx0"
    by (cases r0) (simp_all add: OptRightScan_run_algorithm_on_f_def)
  obtain r1 s1 where l: "OptRightScan_loop f ?s nx0 = (r1, s1)" by (metis surj_pair)
  obtain self1 ep1 where s1: "s1 = (self1, ep1)" by (cases s1)
  from assms g r0 l s1 obtain u where r1: "r1 = Inr u"
    by (cases r1) (simp_all add: OptRightScan_run_algorithm_on_f_def del: OptRightScan_loop.simps)
  from assms g r0 l s1 r1 have fin: "self' = self1" "ep = ep1"
    by (simp_all add: OptRightScan_run_algorithm_on_f_def OptRightScan_get_output_from_exe_path_def
          del: OptRightScan_loop.simps split: if_splits)
  from OptRightScan_loop_after [of f ?s nx0 u s1] l r1
  obtain n where "loop_after OptRightScan_get_next_x f (?s, nx0) n = Some (s1, None)" by blast
  with g r0 s1 fin show ?thesis by blast
qed

lemma LinearScanRandGap_run_after:
  assumes "LinearScanRandGap_run_algorithm_on_f rng f self = (Inr (ep, out), self')"
  shows "\<exists>n next_x0.
           LinearScan_get_next_x (self', \<lparr>x = [], y = []\<rparr>) = (Inr next_x0, (self', \<lparr>x = [], y = []\<rparr>))
         \<and> loop_after LinearScan_get_next_x f ((self', \<lparr>x = [], y = []\<rparr>), next_x0) n =
             Some ((self', ep), None)"
proof -
  from assms obtain g where run: "LinearScan_run_algorithm_on_f f (self\<lparr>x_path := g\<rparr>) = (Inr (ep, out), self')"
    by (auto simp: LinearScanRandGap_run_algorithm_on_f_def Let_def
          split: sum.splits if_splits)
  from run LinearScan_run_scan [of f "self\<lparr>x_path := g\<rparr>"] have same: "self' = self\<lparr>x_path := g\<rparr>"
    by simp
  from LinearScan_run_after [OF run] show ?thesis unfolding same .
qed

text \<open>
  C9. For each variant (LinearScanRandGap runs the loop of LinearScan on its own
  parameter record, after it has stored the new grid): the run starts its loop on the
  empty path
  \<^verbatim>\<open>Namespace(x=[], y=[])\<close>. Whatever the loop variable is at the start, the path
  \<open>ep'\<close> after \<open>n\<close> completed passes through the loop body has \<open>n\<close> inputs and \<open>n\<close>
  outputs (so \<^verbatim>\<open>len(exe_path.y) == len(exe_path.x)\<close>), the outputs are the values of
  \<open>f\<close> on the inputs, the instance is unchanged, and for every \<open>m \<le> n\<close> the path after
  \<open>m\<close> passes was the first \<open>m\<close> inputs and the first \<open>m\<close> outputs of \<open>ep'\<close>: each pass
  appends exactly one pair and nothing is removed or reordered. The path that a run
  returns is the path of such a configuration, reached from the empty path, in which
  the loop variable is \<^verbatim>\<open>None\<close>.
\<close>

theorem run_path_append_only:
  "(\<forall>next_x0 n self' ep' next_x'.
      loop_after LinearScan_get_next_x f ((self, \<lparr>x = [], y = []\<rparr>), next_x0) n =
        Some ((self', ep'), next_x') \<longrightarrow>
      self' = self \<and> length (x ep') = n \<and> length (y ep') = n \<and> y ep' = map f (x ep')
      \<and> (\<forall>m\<le>n. \<exists>next_x.
            loop_after LinearScan_get_next_x f ((self, \<lparr>x = [], y = []\<rparr>), next_x0) m =
              Some ((self, \<lparr>x = take m (x ep'), y = take m (y ep')\<rparr>), next_x)))
   \<and> (\<forall>ep out self'.
      LinearScan_run_algorithm_on_f f self = (Inr (ep, out), self') \<longrightarrow>
      (\<exists>n next_x0.
          LinearScan_get_next_x (self, \<lparr>x = [], y = []\<rparr>) =
            (Inr next_x0, (self, \<lparr>x = [], y = []\<rparr>))
        \<and> loop_after LinearScan_get_next_x f ((self, \<lparr>x = [], y = []\<rparr>), next_x0) n =
            Some ((self', ep), None)))
   \<and> (\<forall>ep out self'.
      LinearScanRandGap_run_algorithm_on_f rng f selfR = (Inr (ep, out), self') \<longrightarrow>
      (\<exists>n next_x0.
          LinearScan_get_next_x (self', \<lparr>x = [], y = []\<rparr>) =
            (Inr next_x0, (self', \<lparr>x = [], y = []\<rparr>))
        \<and> loop_after LinearScan_get_next_x f ((self', \<lparr>x = [], y = []\<rparr>), next_x0) n =
            Some ((self', ep), None)))
   \<and> (\<forall>next_x0 n self' ep' next_x'.
      loop_after AverageOutputs_get_next_x f ((selfA, \<lparr>x = [], y = []\<rparr>), next_x0) n =
        Some ((self', ep'), next_x') \<longrightarrow>
      self' = selfA \<and> length (x ep') = n \<and> length (y ep') = n \<and> y ep' = map f (x ep')
      \<and> (\<forall>m\<le>n. \<exists>next_x.
            loop_after AverageOutputs_get_next_x f ((selfA, \<lparr>x = [], y = []\<rparr>), next_x0) m =
              Some ((selfA, \<lparr>x = take m (x ep'), y = take m (y ep')\<rparr>), next_x)))
   \<and> (\<forall>ep out self'.
      AverageOutputs_run_algorithm_on_f f selfA = (Inr (ep, out), self') \<longrightarrow>
      (\<exists>n next_x0.
          AverageOutputs_get_next_x (selfA, \<lparr>x = [], y = []\<rparr>) =
            (Inr next_x0, (selfA, \<lparr>x = [], y = []\<rparr>))
        \<and> loop_after AverageOutputs_get_next_x f ((selfA, \<lparr>x = [], y = []\<rparr>), next_x0) n =
            Some ((self', ep), None)))
   \<and> (\<forall>next_x0 n self' ep' next_x'.
      loop_after OptRightScan_get_next_x f ((selfO, \<lparr>x = [], y = []\<rparr>), next_x0) n =
        Some ((self', ep'), next_x') \<longrightarrow>
      self' = selfO \<and> length (x ep') = n \<and> length (y ep') = n \<and> y ep' = map f (x ep')
      \<and> (\<forall>m\<le>n. \<exists>next_x.
            loop_after OptRightScan_get_next_x f ((selfO, \<lparr>x = [], y = []\<rparr>), next_x0) m =
              Some ((selfO, \<lparr>x = take m (x ep'), y = take m (y ep')\<rparr>), next_x)))
   \<and> (\<forall>ep out self'.
      OptRightScan_run_algorithm_on_f f selfO = (Inr (ep, out), self') \<longrightarrow>
      (\<exists>n next_x0.
          OptRightScan_get_next_x (selfO, \<lparr>x = [], y = []\<rparr>) =
            (Inr next_x0, (selfO, \<lparr>x = [], y = []\<rparr>))
        \<and> loop_after OptRightScan_get_next_x f ((selfO, \<lparr>x = [], y = []\<rparr>), next_x0) n =
            Some ((self', ep), None)))"
proof (intro conjI allI impI)
qed (blast dest: loop_after_from_empty [OF LinearScan_get_next_x_frame]
        loop_after_from_empty [OF AverageOutputs_get_next_x_frame]
        loop_after_from_empty [OF OptRightScan_get_next_x_frame]
        LinearScan_run_after LinearScanRandGap_run_after AverageOutputs_run_after
        OptRightScan_run_after)+

theorem run_path_append_only_witness:
  "loop_after LinearScan_get_next_x hd
       ((\<lparr>name = ''LinearScan'', x_path = [[1], [2]]\<rparr>, \<lparr>x = [], y = []\<rparr>), Some [1]) 2 =
     Some ((\<lparr>name = ''LinearScan'', x_path = [[1], [2]]\<rparr>, \<lparr>x = [[1], [2]], y = [1, 2]\<rparr>), None)
   \<and> length (x \<lparr>x = [[1], [2]], y = [1, 2::real]\<rparr>) = 2
   \<and> length (y \<lparr>x = [[1], [2]], y = [1, 2::real]\<rparr>) = 2
   \<and> (\<exists>next_x. loop_after LinearScan_get_next_x hd
       ((\<lparr>name = ''LinearScan'', x_path = [[1], [2]]\<rparr>, \<lparr>x = [], y = []\<rparr>), Some [1]) 1 =
     Some ((\<lparr>name = ''LinearScan'', x_path = [[1], [2]]\<rparr>, \<lparr>x = [[1]], y = [1]\<rparr>), next_x))
   \<and> OptRightScan_run_algorithm_on_f hd
       \<lparr>name = ''OptRightScan'', init_x = [0], x_grid_gap = 1, conv_thresh = 0, max_iter = 1\<rparr> =
     (Inr (\<lparr>x = [[0], [1]], y = [0, 1]\<rparr>, [1]),
      \<lparr>name = ''OptRightScan'', init_x = [0], x_grid_gap = 1, conv_thresh = 0, max_iter = 1\<rparr>)
   \<and> (\<exists>n. loop_after OptRightScan_get_next_x hd
       ((\<lparr>name = ''OptRightScan'', init_x = [0], x_grid_gap = 1, conv_thresh = 0, max_iter = 1\<rparr>,
         \<lparr>x = [], y = []\<rparr>), Some [0]) n =
     Some ((\<lparr>name = ''OptRightScan'', init_x = [0], x_grid_gap = 1, conv_thresh = 0, max_iter = 1\<rparr>,
         \<lparr>x = [[0], [1]], y = [0, 1]\<rparr>), None))"
proof -
  let ?gL = "\<lparr>name = ''LinearScan'', x_path = [[1], [2::real]]\<rparr>"
  let ?gO = "\<lparr>name = ''OptRightScan'', init_x = [0::real], x_grid_gap = 1, conv_thresh = 0, max_iter = 1\<rparr>"
  let ?e = "\<lparr>x = [], y = []\<rparr>"
  note inst = run_path_append_only [where f = hd and self = ?gL and selfA = ?gL and selfO = ?gO]
  have two: "loop_after LinearScan_get_next_x hd ((?gL, ?e), Some [1]) 2 =
     Some ((?gL, \<lparr>x = [[1], [2]], y = [1, 2]\<rparr>), None)"
    by (simp add: numeral_2_eq_2 loop_body_def LinearScan_get_next_x_def)
  note L = inst [THEN conjunct1, rule_format, OF two]
  from L have lens: "length (x \<lparr>x = [[1], [2]], y = [1, 2::real]\<rparr>) = 2
      \<and> length (y \<lparr>x = [[1], [2]], y = [1, 2::real]\<rparr>) = 2"
    by simp
  from L have "\<forall>m\<le>2. \<exists>next_x. loop_after LinearScan_get_next_x hd ((?gL, ?e), Some [1]) m =
              Some ((?gL, \<lparr>x = take m (x \<lparr>x = [[1], [2]], y = [1, 2::real]\<rparr>),
                           y = take m (y \<lparr>x = [[1], [2]], y = [1, 2::real]\<rparr>)\<rparr>), next_x)"
    by (elim conjE)
  then have "\<exists>next_x. loop_after LinearScan_get_next_x hd ((?gL, ?e), Some [1]) 1 =
              Some ((?gL, \<lparr>x = take 1 (x \<lparr>x = [[1], [2]], y = [1, 2::real]\<rparr>),
                           y = take 1 (y \<lparr>x = [[1], [2]], y = [1, 2::real]\<rparr>)\<rparr>), next_x)"
    by (elim allE [of _ 1] impE) simp_all
  then have one: "\<exists>next_x. loop_after LinearScan_get_next_x hd ((?gL, ?e), Some [1]) 1 =
     Some ((?gL, \<lparr>x = [[1]], y = [1]\<rparr>), next_x)"
    by (simp del: loop_after.simps)
  have run: "OptRightScan_run_algorithm_on_f hd ?gO = (Inr (\<lparr>x = [[0], [1]], y = [0, 1]\<rparr>, [1]), ?gO)"
    by (simp add: OptRightScan_run_algorithm_on_f_def loop_body_def OptRightScan_get_next_x_def
        OptRightScan_get_output_from_exe_path_def np_min_def)
  have first: "OptRightScan_get_next_x (?gO, ?e) = (Inr (Some [0]), (?gO, ?e))"
    by (simp add: OptRightScan_get_next_x_def)
  note O = inst [THEN conjunct2, THEN conjunct2, THEN conjunct2, THEN conjunct2, THEN conjunct2,
      THEN conjunct2, rule_format, OF run]
  from O first have after: "\<exists>n. loop_after OptRightScan_get_next_x hd ((?gO, ?e), Some [0]) n =
     Some ((?gO, \<lparr>x = [[0], [1]], y = [0, 1]\<rparr>), None)"
    by (auto simp del: loop_after.simps)
  from two lens one run after show ?thesis by (simp del: loop_after.simps)
qed

section \<open>The scan of OptRightScan\<close>

text \<open>
  What \<^verbatim>\<open>get_next_x\<close> returns on the empty path, and on a path of recorded pairs
  whose last point has a coordinate.
\<close>

lemma OptRightScan_get_next_x_empty:
  "x ep = [] \<Longrightarrow>
   OptRightScan_get_next_x (self, ep) =
     (Inr (if max_iter self < 0 then None else Some (init_x self)), (self, ep))"
  by (simp add: OptRightScan_get_next_x_def Let_def)

lemma OptRightScan_get_next_x_nonempty:
  assumes "x ep \<noteq> []" and "last (x ep) \<noteq> []" and "length (y ep) = length (x ep)"
  shows "OptRightScan_get_next_x (self, ep) =
     (Inr (if (2 \<le> length (x ep) \<and> Min (set (butlast (y ep))) + conv_thresh self < last (y ep))
              \<or> max_iter self < int (length (x ep))
           then None else Some [hd (last (x ep)) + x_grid_gap self]), (self, ep))"
proof -
  from assms(2) obtain x0 rest where l: "last (x ep) = x0 # rest" by (cases "last (x ep)") auto
  have b: "2 \<le> length (x ep) \<Longrightarrow> butlast (y ep) \<noteq> []"
    using assms(3) by (cases "y ep" rule: rev_cases) auto
  show ?thesis
    using assms(1) l b
    by (auto simp: OptRightScan_get_next_x_def Let_def np_min_def)
qed

lemma OptRightScan_loop_bound:
  "length (y ep) = length (x ep) \<Longrightarrow> cur \<noteq> [] \<Longrightarrow> int (length (x ep)) \<le> max_iter self \<Longrightarrow>
   \<exists>ep'. OptRightScan_loop f (self, ep) (Some cur) = (Inr (), (self, ep'))
       \<and> x ep' \<noteq> [] \<and> int (length (x ep')) \<le> max_iter self + 1
       \<and> length (y ep') = length (x ep')"
proof (induction "nat (max_iter self - int (length (x ep)))" arbitrary: ep cur)
  case 0
  define ep1 where "ep1 = ep\<lparr>x := x ep @ [cur], y := y ep @ [f cur]\<rparr>"
  have wf: "x ep1 \<noteq> []" "last (x ep1) \<noteq> []" "length (y ep1) = length (x ep1)"
    using "0.prems" by (simp_all add: ep1_def)
  have cap: "max_iter self < int (length (x ep1))" using "0.hyps" "0.prems"(3) by (simp add: ep1_def)
  have body: "loop_body OptRightScan_get_next_x f (self, ep) cur = (Inr None, (self, ep1))"
    using OptRightScan_get_next_x_nonempty [OF wf, of self] cap
    by (simp add: loop_body_def ep1_def)
  have "OptRightScan_loop f (self, ep) (Some cur) = (Inr (), (self, ep1))"
    by (subst OptRightScan_loop.simps) (simp add: body)
  moreover have "int (length (x ep1)) \<le> max_iter self + 1"
    using "0.hyps" "0.prems"(3) by (simp add: ep1_def)
  ultimately show ?case using wf by blast
next
  case (Suc k)
  define ep1 where "ep1 = ep\<lparr>x := x ep @ [cur], y := y ep @ [f cur]\<rparr>"
  have wf: "x ep1 \<noteq> []" "last (x ep1) \<noteq> []" "length (y ep1) = length (x ep1)"
    using Suc.prems by (simp_all add: ep1_def)
  have len1: "int (length (x ep1)) \<le> max_iter self" using Suc.hyps(2) by (simp add: ep1_def)
  have le1: "int (length (x ep1)) \<le> max_iter self + 1" using len1 by simp
  define stop where "stop = (2 \<le> length (x ep1)
      \<and> Min (set (butlast (y ep1))) + conv_thresh self < last (y ep1))"
  have body: "loop_body OptRightScan_get_next_x f (self, ep) cur =
      (Inr (if stop then None else Some [hd (last (x ep1)) + x_grid_gap self]), (self, ep1))"
    using OptRightScan_get_next_x_nonempty [OF wf, of self] len1
    by (simp add: loop_body_def ep1_def stop_def)
  show ?case
  proof (cases stop)
    case True
    have "OptRightScan_loop f (self, ep) (Some cur) = (Inr (), (self, ep1))"
      by (subst OptRightScan_loop.simps) (simp add: body True)
    with wf le1 show ?thesis by blast
  next
    case False
    have k: "k = nat (max_iter self - int (length (x ep1)))" using Suc.hyps(2) by (simp add: ep1_def)
    have ne: "[hd (last (x ep1)) + x_grid_gap self] \<noteq> []" by simp
    from Suc.hyps(1) [OF k wf(3) ne len1]
    obtain ep' where rec: "OptRightScan_loop f (self, ep1) (Some [hd (last (x ep1)) + x_grid_gap self])
          = (Inr (), (self, ep'))"
      and props: "x ep' \<noteq> []" "int (length (x ep')) \<le> max_iter self + 1" "length (y ep') = length (x ep')"
      by blast
    have "OptRightScan_loop f (self, ep) (Some cur) = (Inr (), (self, ep'))"
      by (subst OptRightScan_loop.simps) (simp only: body False rec if_False option.case prod.case sum.case)
    with props show ?thesis by blast
  qed
qed

text \<open>
  A first point with no coordinate: \<^verbatim>\<open>exe_path.x[-1][0]\<close> raises in the
  \<^verbatim>\<open>get_next_x\<close> that follows its query. With or without that error the loop ends,
  on a path that is not empty and is within the cap.
\<close>

lemma OptRightScan_loop_empty_point:
  "OptRightScan_loop f (self, ep) (Some []) =
     (Inl IndexError, (self, ep\<lparr>x := x ep @ [[]], y := y ep @ [f []]\<rparr>))"
  by (subst OptRightScan_loop.simps)
     (simp add: loop_body_def OptRightScan_get_next_x_def)

lemma OptRightScan_loop_ends:
  assumes "length (y ep) = length (x ep)" and "int (length (x ep)) \<le> max_iter self"
  shows "\<exists>r ep'. OptRightScan_loop f (self, ep) (Some cur) = (r, (self, ep'))
       \<and> x ep' \<noteq> [] \<and> int (length (x ep')) \<le> max_iter self + 1"
proof (cases "cur = []")
  case True
  have "x (ep\<lparr>x := x ep @ [[]], y := y ep @ [f []]\<rparr>) \<noteq> []" by simp
  moreover have "int (length (x (ep\<lparr>x := x ep @ [[]], y := y ep @ [f []]\<rparr>))) \<le> max_iter self + 1"
    using assms(2) by simp
  ultimately show ?thesis using True OptRightScan_loop_empty_point [of f self ep] by blast
next
  case False
  from OptRightScan_loop_bound [OF assms(1) False assms(2), of f] show ?thesis by blast
qed

lemma OptRightScan_run_bound:
  assumes "0 \<le> max_iter self" and "init_x self \<noteq> []"
  shows "\<exists>ep. OptRightScan_run_algorithm_on_f f self = (Inr (ep, last (x ep)), self)
           \<and> x ep \<noteq> [] \<and> int (length (x ep)) \<le> max_iter self + 1
           \<and> length (y ep) = length (x ep)"
proof -
  let ?e = "\<lparr>x = [], y = []\<rparr>"
  have first: "OptRightScan_get_next_x (self, ?e) = (Inr (Some (init_x self)), (self, ?e))"
    using OptRightScan_get_next_x_empty [of ?e self] assms(1) by simp
  have "length (y ?e) = length (x ?e)" by simp
  moreover have "int (length (x ?e)) \<le> max_iter self" using assms(1) by simp
  ultimately obtain ep' where loop: "OptRightScan_loop f (self, ?e) (Some (init_x self)) = (Inr (), (self, ep'))"
    and props: "x ep' \<noteq> []" "int (length (x ep')) \<le> max_iter self + 1" "length (y ep') = length (x ep')"
    using OptRightScan_loop_bound [OF _ assms(2), of ?e self f] by blast
  have "OptRightScan_run_algorithm_on_f f self = (Inr (ep', last (x ep')), self)"
    unfolding OptRightScan_run_algorithm_on_f_def Let_def
    using first loop props(1) by (simp add: OptRightScan_get_output_from_exe_path_def)
  with props show ?thesis by blast
qed

lemma OptRightScan_run_negative_cap:
  assumes "max_iter self < 0"
  shows "OptRightScan_run_algorithm_on_f f self = (Inl IndexError, self)"
proof -
  let ?e = "\<lparr>x = [], y = []\<rparr>"
  have first: "OptRightScan_get_next_x (self, ?e) = (Inr None, (self, ?e))"
    using OptRightScan_get_next_x_empty [of ?e self] assms by simp
  show ?thesis
    unfolding OptRightScan_run_algorithm_on_f_def Let_def
    using first by (simp add: OptRightScan_get_output_from_exe_path_def)
qed

text \<open>
  A function that does not increase along the scan never meets the convergence test:
  the loop then stops by the cap alone.
\<close>

lemma OptRightScan_loop_no_convergence:
  assumes anti: "\<forall>a b. a \<le> b \<longrightarrow> f [b] \<le> f [a]"
    and gap: "0 \<le> x_grid_gap self" and thresh: "0 \<le> conv_thresh self"
  shows "x ep = map (\<lambda>v. [v]) vs \<Longrightarrow> y ep = map f (x ep) \<Longrightarrow> \<forall>v\<in>set vs. v \<le> c \<Longrightarrow>
         int (length vs) \<le> max_iter self \<Longrightarrow>
         \<exists>ep'. OptRightScan_loop f (self, ep) (Some [c]) = (Inr (), (self, ep'))
             \<and> int (length (x ep')) = max_iter self + 1"
proof (induction "nat (max_iter self - int (length vs))" arbitrary: ep vs c)
  case 0
  define ep1 where "ep1 = ep\<lparr>x := x ep @ [[c]], y := y ep @ [f [c]]\<rparr>"
  have wf: "x ep1 \<noteq> []" "last (x ep1) \<noteq> []" "length (y ep1) = length (x ep1)"
    using "0.prems" by (simp_all add: ep1_def)
  have len: "int (length (x ep1)) = max_iter self + 1"
    using "0.hyps" "0.prems"(1,4) by (simp add: ep1_def)
  have body: "loop_body OptRightScan_get_next_x f (self, ep) [c] = (Inr None, (self, ep1))"
    using OptRightScan_get_next_x_nonempty [OF wf, of self] len
    by (simp add: loop_body_def ep1_def)
  have "OptRightScan_loop f (self, ep) (Some [c]) = (Inr (), (self, ep1))"
    by (subst OptRightScan_loop.simps) (simp add: body)
  with len show ?case by blast
next
  case (Suc k)
  define ep1 where "ep1 = ep\<lparr>x := x ep @ [[c]], y := y ep @ [f [c]]\<rparr>"
  have wf: "x ep1 \<noteq> []" "last (x ep1) \<noteq> []" "length (y ep1) = length (x ep1)"
    using Suc.prems by (simp_all add: ep1_def)
  have x1: "x ep1 = map (\<lambda>v. [v]) (vs @ [c])" using Suc.prems(1) by (simp add: ep1_def)
  have y1: "y ep1 = map f (x ep1)" using Suc.prems(2) by (simp add: ep1_def)
  have len1: "int (length (x ep1)) \<le> max_iter self" using Suc.hyps(2) Suc.prems(1) by (simp add: ep1_def)
  have noconv: "\<not> (2 \<le> length (x ep1)
      \<and> Min (set (butlast (y ep1))) + conv_thresh self < last (y ep1))"
  proof (cases "vs = []")
    case True
    then show ?thesis using Suc.prems(1) by (simp add: ep1_def)
  next
    case False
    have bl: "butlast (y ep1) = map (\<lambda>v. f [v]) vs" using Suc.prems(1,2) by (simp add: ep1_def comp_def)
    have "\<forall>a\<in>set (map (\<lambda>v. f [v]) vs). f [c] \<le> a" using Suc.prems(3) anti by auto
    then have "f [c] \<le> Min (set (map (\<lambda>v. f [v]) vs))" using False by simp
    moreover have "last (y ep1) = f [c]" by (simp add: ep1_def)
    ultimately show ?thesis using thresh bl by simp
  qed
  have body: "loop_body OptRightScan_get_next_x f (self, ep) [c] =
      (Inr (Some [c + x_grid_gap self]), (self, ep1))"
    using OptRightScan_get_next_x_nonempty [OF wf, of self] len1 noconv
    by (simp add: loop_body_def ep1_def)
  have k: "k = nat (max_iter self - int (length (vs @ [c])))" using Suc.hyps(2) by simp
  have sorted': "\<forall>v\<in>set (vs @ [c]). v \<le> c + x_grid_gap self" using Suc.prems(3) gap by auto
  have len': "int (length (vs @ [c])) \<le> max_iter self" using len1 x1 by simp
  from Suc.hyps(1) [OF k x1 y1 sorted' len']
  obtain ep' where rec: "OptRightScan_loop f (self, ep1) (Some [c + x_grid_gap self]) = (Inr (), (self, ep'))"
    and len: "int (length (x ep')) = max_iter self + 1" by blast
  have "OptRightScan_loop f (self, ep) (Some [c]) = (Inr (), (self, ep'))"
    by (subst OptRightScan_loop.simps) (simp only: body rec option.case prod.case sum.case)
  with len show ?case by blast
qed

lemma OptRightScan_run_no_convergence:
  assumes anti: "\<forall>a b. a \<le> b \<longrightarrow> f [b] \<le> f [a]"
    and gap: "0 \<le> x_grid_gap self" and thresh: "0 \<le> conv_thresh self"
    and cap: "0 \<le> max_iter self" and init: "init_x self = [x0]"
  shows "\<exists>ep. OptRightScan_run_algorithm_on_f f self = (Inr (ep, last (x ep)), self)
           \<and> int (length (x ep)) = max_iter self + 1"
proof -
  let ?e = "\<lparr>x = [], y = []\<rparr>"
  have first: "OptRightScan_get_next_x (self, ?e) = (Inr (Some [x0]), (self, ?e))"
    using OptRightScan_get_next_x_empty [of ?e self] cap init by simp
  have "x ?e = map (\<lambda>v. [v]) []" "y ?e = map f (x ?e)" "\<forall>v\<in>set []. v \<le> x0"
    "int (length ([]::real list)) \<le> max_iter self"
    using cap by simp_all
  from OptRightScan_loop_no_convergence [OF anti gap thresh this]
  obtain ep' where loop: "OptRightScan_loop f (self, ?e) (Some [x0]) = (Inr (), (self, ep'))"
    and len: "int (length (x ep')) = max_iter self + 1" by blast
  from len cap have ne: "x ep' \<noteq> []" by auto
  have "OptRightScan_run_algorithm_on_f f self = (Inr (ep', last (x ep')), self)"
    unfolding OptRightScan_run_algorithm_on_f_def Let_def
    using first loop ne by (simp add: OptRightScan_get_output_from_exe_path_def)
  with len show ?thesis by blast
qed

text \<open>
  C3, as the claim states it, fails on the empty path: with a negative \<open>max_iter\<close> the
  cap test \<^verbatim>\<open>len_path > self.params.max_iter\<close> holds for \<open>len_path = 0\<close>, and
  \<^verbatim>\<open>get_next_x\<close> returns \<^verbatim>\<open>None\<close>, not the configured initial point.
\<close>

theorem OptRightScan_get_next_x_empty_path_counterexample:
  "fst (OptRightScan_get_next_x
          (\<lparr>name = ''OptRightScan'', init_x = [4], x_grid_gap = 0.1, conv_thresh = 0.2,
            max_iter = - 1\<rparr>, \<lparr>x = [], y = []\<rparr>)) = Inr None
   \<and> fst (OptRightScan_get_next_x
          (\<lparr>name = ''OptRightScan'', init_x = [4], x_grid_gap = 0.1, conv_thresh = 0.2,
            max_iter = - 1\<rparr>, \<lparr>x = [], y = []\<rparr>)) \<noteq>
       Inr (Some (init_x \<lparr>name = ''OptRightScan'', init_x = [4], x_grid_gap = 0.1,
                          conv_thresh = 0.2, max_iter = - 1\<rparr>))"
  by (simp add: OptRightScan_get_next_x_def)

text \<open>
  C3, amended. On a path of at least two recorded pairs (as many outputs as inputs,
  the last point with a coordinate), \<^verbatim>\<open>get_next_x\<close> returns \<^verbatim>\<open>None\<close> if and only
  if the most recent output exceeds the least of all outputs but the most recent plus
  \<open>conv_thresh\<close>, or the length of the path exceeds \<open>max_iter\<close>. On the empty path it
  proposes \<open>init_x\<close>, unless \<open>max_iter\<close> is negative: then it returns \<^verbatim>\<open>None\<close>. On a
  path of at least one recorded pair, when it does not return \<^verbatim>\<open>None\<close>, it proposes
  the point whose one coordinate is the first coordinate of the previous point plus
  \<open>x_grid_gap\<close>. The path and the instance are unchanged.
\<close>

theorem OptRightScan_get_next_x_decides:
  "(2 \<le> length (x ep) \<and> length (y ep) = length (x ep) \<and> last (x ep) \<noteq> [] \<longrightarrow>
      (fst (OptRightScan_get_next_x (self, ep)) = Inr None \<longleftrightarrow>
         Min (set (butlast (y ep))) + conv_thresh self < last (y ep)
         \<or> max_iter self < int (length (x ep))))
   \<and> (length (x ep) = 0 \<longrightarrow>
      OptRightScan_get_next_x (self, ep) =
        (Inr (if max_iter self < 0 then None else Some (init_x self)), (self, ep)))
   \<and> (1 \<le> length (x ep) \<and> length (y ep) = length (x ep) \<and> last (x ep) \<noteq> []
        \<and> fst (OptRightScan_get_next_x (self, ep)) \<noteq> Inr None \<longrightarrow>
      OptRightScan_get_next_x (self, ep) =
        (Inr (Some [hd (last (x ep)) + x_grid_gap self]), (self, ep)))"
proof (intro conjI impI)
  assume "2 \<le> length (x ep) \<and> length (y ep) = length (x ep) \<and> last (x ep) \<noteq> []"
  then have wf: "x ep \<noteq> []" "last (x ep) \<noteq> []" "length (y ep) = length (x ep)"
    and two: "2 \<le> length (x ep)" by auto
  show "fst (OptRightScan_get_next_x (self, ep)) = Inr None \<longleftrightarrow>
         Min (set (butlast (y ep))) + conv_thresh self < last (y ep)
         \<or> max_iter self < int (length (x ep))"
    using two by (simp add: OptRightScan_get_next_x_nonempty [OF wf])
next
  assume "length (x ep) = 0"
  then show "OptRightScan_get_next_x (self, ep) =
        (Inr (if max_iter self < 0 then None else Some (init_x self)), (self, ep))"
    by (simp add: OptRightScan_get_next_x_empty)
next
  assume a: "1 \<le> length (x ep) \<and> length (y ep) = length (x ep) \<and> last (x ep) \<noteq> []
        \<and> fst (OptRightScan_get_next_x (self, ep)) \<noteq> Inr None"
  then have wf: "x ep \<noteq> []" "last (x ep) \<noteq> []" "length (y ep) = length (x ep)" by auto
  from a have "fst (OptRightScan_get_next_x (self, ep)) \<noteq> Inr None" by simp
  then show "OptRightScan_get_next_x (self, ep) =
        (Inr (Some [hd (last (x ep)) + x_grid_gap self]), (self, ep))"
    unfolding OptRightScan_get_next_x_nonempty [OF wf] by (simp split: if_splits)
qed

theorem OptRightScan_get_next_x_decides_witness:
  "fst (OptRightScan_get_next_x
          (\<lparr>name = ''OptRightScan'', init_x = [4], x_grid_gap = 0.1, conv_thresh = 0.2,
            max_iter = 100\<rparr>, \<lparr>x = [[4], [4.1], [4.2]], y = [1, 0.5, 0.8]\<rparr>)) = Inr None
   \<and> Min (set (butlast [1, 0.5, 0.8 :: real])) + 0.2 < last [1, 0.5, 0.8]
   \<and> OptRightScan_get_next_x
          (\<lparr>name = ''OptRightScan'', init_x = [4], x_grid_gap = 0.1, conv_thresh = 0.2,
            max_iter = 100\<rparr>, \<lparr>x = [[4], [4.1], [4.2]], y = [1, 0.5, 0.6]\<rparr>) =
       (Inr (Some [4.3]),
        (\<lparr>name = ''OptRightScan'', init_x = [4], x_grid_gap = 0.1, conv_thresh = 0.2,
            max_iter = 100\<rparr>, \<lparr>x = [[4], [4.1], [4.2]], y = [1, 0.5, 0.6]\<rparr>))
   \<and> OptRightScan_get_next_x
          (\<lparr>name = ''OptRightScan'', init_x = [4], x_grid_gap = 0.1, conv_thresh = 0.2,
            max_iter = 100\<rparr>, \<lparr>x = [], y = []\<rparr>) =
       (Inr (Some [4]),
        (\<lparr>name = ''OptRightScan'', init_x = [4], x_grid_gap = 0.1, conv_thresh = 0.2,
            max_iter = 100\<rparr>, \<lparr>x = [], y = []\<rparr>))"
proof -
  let ?p = "\<lparr>name = ''OptRightScan'', init_x = [4::real], x_grid_gap = 0.1, conv_thresh = 0.2,
            max_iter = 100\<rparr>"
  let ?up = "\<lparr>x = [[4], [4.1], [4.2::real]], y = [1, 0.5, 0.8::real]\<rparr>"
  let ?flat = "\<lparr>x = [[4], [4.1], [4.2::real]], y = [1, 0.5, 0.6::real]\<rparr>"
  let ?e = "\<lparr>x = [], y = []\<rparr>"
  have rise: "Min (set (butlast [1, 0.5, 0.8 :: real])) + 0.2 < last [1, 0.5, 0.8]" by simp
  from OptRightScan_get_next_x_decides [of ?up ?p] rise
  have stop: "fst (OptRightScan_get_next_x (?p, ?up)) = Inr None" by simp
  have "fst (OptRightScan_get_next_x (?p, ?flat)) \<noteq> Inr None"
    using OptRightScan_get_next_x_decides [of ?flat ?p] by simp
  with OptRightScan_get_next_x_decides [of ?flat ?p]
  have go: "OptRightScan_get_next_x (?p, ?flat) = (Inr (Some [4.3]), (?p, ?flat))" by simp
  from OptRightScan_get_next_x_decides [of ?e ?p]
  have init: "OptRightScan_get_next_x (?p, ?e) = (Inr (Some [4]), (?p, ?e))" by simp
  from stop rise go init show ?thesis by (intro conjI)
qed

text \<open>
  C2. For every function \<open>f\<close> and every instance with \<open>max_iter \<ge> 0\<close>:
  \<^verbatim>\<open>get_next_x\<close> returns \<^verbatim>\<open>None\<close> on every path of recorded pairs longer than
  \<open>max_iter\<close>, whatever the outputs are; the loop of the run, entered with \<open>init_x\<close>,
  ends (the loop function is total) on a path of at least one and at most
  \<open>max_iter + 1\<close> points; when the initial point has a coordinate the run raises
  nothing and returns such a path (with no coordinate, \<^verbatim>\<open>exe_path.x[-1][0]\<close> raises
  \<^verbatim>\<open>IndexError\<close> after the first query); and for an \<open>f\<close> that never meets the
  convergence test, one that does not increase along the one-dimensional scan (with a
  non-negative gap and threshold), the path has exactly \<open>max_iter + 1\<close> points: six
  for \<open>max_iter = 5\<close>.
\<close>

theorem OptRightScan_run_capped:
  assumes cap: "0 \<le> max_iter self"
  shows "(\<forall>ep. max_iter self < int (length (x ep)) \<and> length (y ep) = length (x ep)
              \<and> last (x ep) \<noteq> [] \<longrightarrow>
            OptRightScan_get_next_x (self, ep) = (Inr None, (self, ep)))
       \<and> (\<exists>r ep. OptRightScan_get_next_x (self, \<lparr>x = [], y = []\<rparr>) =
                   (Inr (Some (init_x self)), (self, \<lparr>x = [], y = []\<rparr>))
              \<and> OptRightScan_loop f (self, \<lparr>x = [], y = []\<rparr>) (Some (init_x self)) = (r, (self, ep))
              \<and> 1 \<le> length (x ep) \<and> int (length (x ep)) \<le> max_iter self + 1)
       \<and> (init_x self \<noteq> [] \<longrightarrow>
            (\<exists>ep. OptRightScan_run_algorithm_on_f f self = (Inr (ep, last (x ep)), self)
              \<and> 1 \<le> length (x ep) \<and> int (length (x ep)) \<le> max_iter self + 1))
       \<and> ((\<forall>a b. a \<le> b \<longrightarrow> f [b] \<le> f [a]) \<and> 0 \<le> x_grid_gap self \<and> 0 \<le> conv_thresh self
              \<and> length (init_x self) = 1 \<longrightarrow>
            (\<exists>ep. OptRightScan_run_algorithm_on_f f self = (Inr (ep, last (x ep)), self)
              \<and> int (length (x ep)) = max_iter self + 1))"
proof (intro conjI allI impI)
  fix ep :: exe_path
  assume a: "max_iter self < int (length (x ep)) \<and> length (y ep) = length (x ep)
              \<and> last (x ep) \<noteq> []"
  with cap have wf: "x ep \<noteq> []" "last (x ep) \<noteq> []" "length (y ep) = length (x ep)" by auto
  from a show "OptRightScan_get_next_x (self, ep) = (Inr None, (self, ep))"
    by (simp add: OptRightScan_get_next_x_nonempty [OF wf])
next
  let ?e = "\<lparr>x = [], y = []\<rparr>"
  have first: "OptRightScan_get_next_x (self, ?e) = (Inr (Some (init_x self)), (self, ?e))"
    using OptRightScan_get_next_x_empty [of ?e self] cap by simp
  have "length (y ?e) = length (x ?e)" and "int (length (x ?e)) \<le> max_iter self"
    using cap by simp_all
  from OptRightScan_loop_ends [OF this, of f "init_x self"]
  obtain r ep where loop: "OptRightScan_loop f (self, ?e) (Some (init_x self)) = (r, (self, ep))"
    and ne: "x ep \<noteq> []" and le: "int (length (x ep)) \<le> max_iter self + 1" by blast
  from ne have "1 \<le> length (x ep)" by (cases "x ep") simp_all
  with first loop le
  show "\<exists>r ep. OptRightScan_get_next_x (self, ?e) = (Inr (Some (init_x self)), (self, ?e))
              \<and> OptRightScan_loop f (self, ?e) (Some (init_x self)) = (r, (self, ep))
              \<and> 1 \<le> length (x ep) \<and> int (length (x ep)) \<le> max_iter self + 1" by blast
next
  assume init: "init_x self \<noteq> []"
  from OptRightScan_run_bound [OF cap init, of f]
  obtain ep where "OptRightScan_run_algorithm_on_f f self = (Inr (ep, last (x ep)), self)"
    and "x ep \<noteq> []" and "int (length (x ep)) \<le> max_iter self + 1" by blast
  moreover from \<open>x ep \<noteq> []\<close> have "1 \<le> length (x ep)" by (cases "x ep") simp_all
  ultimately show "\<exists>ep. OptRightScan_run_algorithm_on_f f self = (Inr (ep, last (x ep)), self)
              \<and> 1 \<le> length (x ep) \<and> int (length (x ep)) \<le> max_iter self + 1" by blast
next
  assume a: "(\<forall>a b. a \<le> b \<longrightarrow> f [b] \<le> f [a]) \<and> 0 \<le> x_grid_gap self \<and> 0 \<le> conv_thresh self
              \<and> length (init_x self) = 1"
  then obtain x0 where x0: "init_x self = [x0]" by (cases "init_x self") auto
  from a have anti: "\<forall>a b. a \<le> b \<longrightarrow> f [b] \<le> f [a]"
    and gap: "0 \<le> x_grid_gap self" and thresh: "0 \<le> conv_thresh self" by simp_all
  show "\<exists>ep. OptRightScan_run_algorithm_on_f f self = (Inr (ep, last (x ep)), self)
              \<and> int (length (x ep)) = max_iter self + 1"
    by (rule OptRightScan_run_no_convergence [OF anti gap thresh cap x0])
qed

theorem OptRightScan_run_capped_witness:
  "OptRightScan_run_algorithm_on_f (\<lambda>pt. - hd pt)
       \<lparr>name = ''OptRightScan'', init_x = [4], x_grid_gap = 0.1, conv_thresh = 0.2, max_iter = 5\<rparr> =
     (Inr (\<lparr>x = [[4], [4.1], [4.2], [4.3], [4.4], [4.5]],
            y = [- 4, - 4.1, - 4.2, - 4.3, - 4.4, - 4.5]\<rparr>, [4.5]),
      \<lparr>name = ''OptRightScan'', init_x = [4], x_grid_gap = 0.1, conv_thresh = 0.2, max_iter = 5\<rparr>)
   \<and> length (x \<lparr>x = [[4], [4.1], [4.2], [4.3], [4.4], [4.5 :: real]],
            y = [- 4, - 4.1, - 4.2, - 4.3, - 4.4, - 4.5 :: real]\<rparr>) = 6
   \<and> (\<exists>ep. OptRightScan_run_algorithm_on_f (\<lambda>pt. - hd pt)
         \<lparr>name = ''OptRightScan'', init_x = [4], x_grid_gap = 0.1, conv_thresh = 0.2, max_iter = 5\<rparr> =
          (Inr (ep, last (x ep)),
           \<lparr>name = ''OptRightScan'', init_x = [4], x_grid_gap = 0.1, conv_thresh = 0.2, max_iter = 5\<rparr>)
        \<and> int (length (x ep)) = 5 + 1)
   \<and> OptRightScan_get_next_x
       (\<lparr>name = ''OptRightScan'', init_x = [4], x_grid_gap = 0.1, conv_thresh = 0.2, max_iter = 5\<rparr>,
        \<lparr>x = [[4], [4.1], [4.2], [4.3], [4.4], [4.5]],
            y = [- 4, - 4.1, - 4.2, - 4.3, - 4.4, - 4.5]\<rparr>) =
     (Inr None,
       (\<lparr>name = ''OptRightScan'', init_x = [4], x_grid_gap = 0.1, conv_thresh = 0.2, max_iter = 5\<rparr>,
        \<lparr>x = [[4], [4.1], [4.2], [4.3], [4.4], [4.5]],
            y = [- 4, - 4.1, - 4.2, - 4.3, - 4.4, - 4.5]\<rparr>))"
proof -
  let ?p = "\<lparr>name = ''OptRightScan'', init_x = [4::real], x_grid_gap = 0.1, conv_thresh = 0.2,
             max_iter = 5\<rparr>"
  let ?f = "\<lambda>pt::point. - hd pt"
  let ?ep = "\<lparr>x = [[4], [4.1], [4.2], [4.3], [4.4], [4.5 :: real]],
            y = [- 4, - 4.1, - 4.2, - 4.3, - 4.4, - 4.5 :: real]\<rparr>"
  have cap: "0 \<le> max_iter ?p" by simp
  note inst = OptRightScan_run_capped [OF cap, of ?f]
  have decreasing: "(\<forall>a b. a \<le> b \<longrightarrow> ?f [b] \<le> ?f [a]) \<and> 0 \<le> x_grid_gap ?p \<and> 0 \<le> conv_thresh ?p
              \<and> length (init_x ?p) = 1" by simp
  from inst [THEN conjunct2, THEN conjunct2, THEN conjunct2, rule_format, OF decreasing]
  have six: "\<exists>ep. OptRightScan_run_algorithm_on_f ?f ?p = (Inr (ep, last (x ep)), ?p)
        \<and> int (length (x ep)) = 5 + 1" by simp
  have stop: "OptRightScan_get_next_x (?p, ?ep) = (Inr None, (?p, ?ep))"
    by (rule inst [THEN conjunct1, rule_format]) simp
  have run: "OptRightScan_run_algorithm_on_f ?f ?p = (Inr (?ep, [4.5]), ?p)"
    by (simp add: OptRightScan_run_algorithm_on_f_def loop_body_def OptRightScan_get_next_x_def
        OptRightScan_get_output_from_exe_path_def np_min_def)
  from run six stop show ?thesis by simp
qed

text \<open>
  C7. For every function \<open>f\<close> and every instance with \<open>max_iter \<ge> 0\<close>, the path on
  which the loop of OptRightScan ends is not empty, so that \<^verbatim>\<open>exe_path.x[-1]\<close> in
  \<^verbatim>\<open>get_output_from_exe_path\<close> has a value on it, the last input of the path; when
  the initial point has a coordinate the run raises nothing and returns that last
  input as its output. With a negative \<open>max_iter\<close> the first \<^verbatim>\<open>get_next_x\<close> returns
  \<^verbatim>\<open>None\<close>, the path stays empty and the output extraction raises
  \<^verbatim>\<open>IndexError\<close>.
\<close>

theorem OptRightScan_output_last_input:
  "(0 \<le> max_iter self \<longrightarrow>
      (\<exists>r ep. OptRightScan_get_next_x (self, \<lparr>x = [], y = []\<rparr>) =
                (Inr (Some (init_x self)), (self, \<lparr>x = [], y = []\<rparr>))
         \<and> OptRightScan_loop f (self, \<lparr>x = [], y = []\<rparr>) (Some (init_x self)) = (r, (self, ep))
         \<and> x ep \<noteq> []
         \<and> OptRightScan_get_output_from_exe_path (self, ep) = (Inr (last (x ep)), (self, ep)))
      \<and> (init_x self \<noteq> [] \<longrightarrow>
           (\<exists>ep. OptRightScan_run_algorithm_on_f f self = (Inr (ep, last (x ep)), self)
              \<and> x ep \<noteq> [])))
   \<and> (max_iter self < 0 \<longrightarrow>
      OptRightScan_get_next_x (self, \<lparr>x = [], y = []\<rparr>) = (Inr None, (self, \<lparr>x = [], y = []\<rparr>))
      \<and> OptRightScan_get_output_from_exe_path (self, \<lparr>x = [], y = []\<rparr>) =
          (Inl IndexError, (self, \<lparr>x = [], y = []\<rparr>))
      \<and> OptRightScan_run_algorithm_on_f f self = (Inl IndexError, self))"
proof (intro conjI impI)
  let ?e = "\<lparr>x = [], y = []\<rparr>"
  assume cap: "0 \<le> max_iter self"
  have first: "OptRightScan_get_next_x (self, ?e) = (Inr (Some (init_x self)), (self, ?e))"
    using OptRightScan_get_next_x_empty [of ?e self] cap by simp
  have "length (y ?e) = length (x ?e)" and "int (length (x ?e)) \<le> max_iter self"
    using cap by simp_all
  from OptRightScan_loop_ends [OF this, of f "init_x self"]
  obtain r ep where loop: "OptRightScan_loop f (self, ?e) (Some (init_x self)) = (r, (self, ep))"
    and ne: "x ep \<noteq> []" by blast
  from ne have "OptRightScan_get_output_from_exe_path (self, ep) = (Inr (last (x ep)), (self, ep))"
    by (simp add: OptRightScan_get_output_from_exe_path_def)
  with first loop ne
  show "\<exists>r ep. OptRightScan_get_next_x (self, ?e) = (Inr (Some (init_x self)), (self, ?e))
         \<and> OptRightScan_loop f (self, ?e) (Some (init_x self)) = (r, (self, ep))
         \<and> x ep \<noteq> []
         \<and> OptRightScan_get_output_from_exe_path (self, ep) = (Inr (last (x ep)), (self, ep))"
    by blast
next
  assume cap: "0 \<le> max_iter self" and init: "init_x self \<noteq> []"
  from OptRightScan_run_bound [OF cap init, of f]
  show "\<exists>ep. OptRightScan_run_algorithm_on_f f self = (Inr (ep, last (x ep)), self) \<and> x ep \<noteq> []"
    by blast
next
  assume neg: "max_iter self < 0"
  then show "OptRightScan_get_next_x (self, \<lparr>x = [], y = []\<rparr>) = (Inr None, (self, \<lparr>x = [], y = []\<rparr>))"
    by (simp add: OptRightScan_get_next_x_empty)
  show "OptRightScan_get_output_from_exe_path (self, \<lparr>x = [], y = []\<rparr>) =
          (Inl IndexError, (self, \<lparr>x = [], y = []\<rparr>))"
    by (simp add: OptRightScan_get_output_from_exe_path_def)
  from neg show "OptRightScan_run_algorithm_on_f f self = (Inl IndexError, self)"
    by (rule OptRightScan_run_negative_cap)
qed

theorem OptRightScan_output_last_input_witness:
  "OptRightScan_run_algorithm_on_f (\<lambda>pt. (hd pt - 1) * (hd pt - 1))
       \<lparr>name = ''OptRightScan'', init_x = [0], x_grid_gap = 1, conv_thresh = 0.5, max_iter = 100\<rparr> =
     (Inr (\<lparr>x = [[0], [1], [2]], y = [1, 0, 1]\<rparr>, [2]),
      \<lparr>name = ''OptRightScan'', init_x = [0], x_grid_gap = 1, conv_thresh = 0.5, max_iter = 100\<rparr>)
   \<and> OptRightScan_run_algorithm_on_f (\<lambda>pt. (hd pt - 1) * (hd pt - 1))
       \<lparr>name = ''OptRightScan'', init_x = [0], x_grid_gap = 1, conv_thresh = 0.5, max_iter = - 1\<rparr> =
     (Inl IndexError,
      \<lparr>name = ''OptRightScan'', init_x = [0], x_grid_gap = 1, conv_thresh = 0.5, max_iter = - 1\<rparr>)"
proof -
  let ?f = "\<lambda>pt::point. (hd pt - 1) * (hd pt - 1)"
  let ?p = "\<lparr>name = ''OptRightScan'', init_x = [0::real], x_grid_gap = 1, conv_thresh = 0.5,
             max_iter = 100\<rparr>"
  let ?q = "\<lparr>name = ''OptRightScan'', init_x = [0::real], x_grid_gap = 1, conv_thresh = 0.5,
             max_iter = - 1\<rparr>"
  have cap: "0 \<le> max_iter ?p" and init: "init_x ?p \<noteq> []" by simp_all
  from OptRightScan_output_last_input [of ?p ?f, THEN conjunct1, rule_format, OF cap,
      THEN conjunct2, rule_format, OF init]
  obtain ep where run: "OptRightScan_run_algorithm_on_f ?f ?p = (Inr (ep, last (x ep)), ?p)"
    and ne: "x ep \<noteq> []" by blast
  have eval: "OptRightScan_run_algorithm_on_f ?f ?p = (Inr (\<lparr>x = [[0], [1], [2]], y = [1, 0, 1]\<rparr>, [2]), ?p)"
    by (simp add: OptRightScan_run_algorithm_on_f_def loop_body_def OptRightScan_get_next_x_def
        OptRightScan_get_output_from_exe_path_def np_min_def)
  have neg: "max_iter ?q < 0" by simp
  from OptRightScan_output_last_input [of ?q ?f, THEN conjunct2, rule_format, OF neg]
  have "OptRightScan_run_algorithm_on_f ?f ?q = (Inl IndexError, ?q)" by simp
  with eval run show ?thesis by simp
qed

section \<open>The resampled grid of LinearScanRandGap\<close>

text \<open>Facts of the numpy functions: the samples of \<^verbatim>\<open>np.linspace\<close> and the two bounds.\<close>

lemma length_np_linspace: "length (np_linspace a b k) = k"
  by (simp add: np_linspace_def)

lemma concat_singletons: "concat (map (\<lambda>v. [v]) l) = l"
  by (induction l) simp_all

lemma np_linspace_bounds:
  assumes "a \<le> b" and "v \<in> set (np_linspace a b k)"
  shows "a \<le> v \<and> v \<le> b"
proof (cases "k = 1")
  case True
  with assms show ?thesis by (simp add: np_linspace_def)
next
  case False
  with assms(2) obtain i where i: "i < k" and v: "v = a + real i * ((b - a) / real (k - 1))"
    by (auto simp: np_linspace_def)
  from i False have k: "0 < real (k - 1)" and ik: "real i \<le> real (k - 1)" by simp_all
  have "0 \<le> real i * ((b - a) / real (k - 1))" using assms(1) k by simp
  moreover have "real i * ((b - a) / real (k - 1)) \<le> real (k - 1) * ((b - a) / real (k - 1))"
    using ik assms(1) k by (intro mult_right_mono) simp_all
  moreover have "real (k - 1) * ((b - a) / real (k - 1)) = b - a" using k by simp
  ultimately show ?thesis using v by simp
qed

lemma np_linspace_first: "0 < k \<Longrightarrow> a \<in> set (np_linspace a b k)"
proof -
  assume k: "0 < k"
  show ?thesis
  proof (cases "k = 1")
    case True
    then show ?thesis by (simp add: np_linspace_def)
  next
    case False
    have "a + real 0 * ((b - a) / real (k - 1)) \<in> (\<lambda>i. a + real i * ((b - a) / real (k - 1))) ` {0..<k}"
      using k by (intro imageI) simp
    with False show ?thesis by (simp add: np_linspace_def)
  qed
qed

lemma np_linspace_last: "2 \<le> k \<Longrightarrow> b \<in> set (np_linspace a b k)"
proof -
  assume k: "2 \<le> k"
  then have pos: "0 < real (k - 1)" by simp
  have "a + real (k - 1) * ((b - a) / real (k - 1)) \<in> (\<lambda>i. a + real i * ((b - a) / real (k - 1))) ` {0..<k}"
    using k by (intro imageI) simp
  moreover have "a + real (k - 1) * ((b - a) / real (k - 1)) = b" using pos by simp
  ultimately show ?thesis using k by (simp add: np_linspace_def)
qed

lemma np_min_linspace:
  assumes "a \<le> b" and "0 < k"
  shows "np_min (np_linspace a b k) = Inr a"
proof -
  have ne: "np_linspace a b k \<noteq> []" using assms(2) length_np_linspace [of a b k] by auto
  have "Min (set (np_linspace a b k)) = a"
    using np_linspace_first [OF assms(2)] np_linspace_bounds [OF assms(1)]
    by (intro Min_eqI) auto
  with ne show ?thesis by (simp add: np_min_def)
qed

lemma np_max_linspace:
  assumes "a \<le> b" and "0 < k" and "k = 1 \<longrightarrow> a = b"
  shows "np_max (np_linspace a b k) = Inr b"
proof -
  have ne: "np_linspace a b k \<noteq> []" using assms(2) length_np_linspace [of a b k] by auto
  have mem: "b \<in> set (np_linspace a b k)"
  proof (cases "k = 1")
    case True
    with assms(3) show ?thesis by (simp add: np_linspace_def)
  next
    case False
    with assms(2) have "2 \<le> k" by simp
    then show ?thesis by (rule np_linspace_last)
  qed
  have "Max (set (np_linspace a b k)) = b"
    using mem np_linspace_bounds [OF assms(1)]
    by (intro Max_eqI) auto
  with ne show ?thesis by (simp add: np_max_def)
qed

lemma min_gap_pos: "0 < n \<Longrightarrow> 0 < np_ceil ((1 - 0.2) * real n)"
  by (simp add: np_ceil_def)

lemma min_gap_ge2: "2 \<le> n \<Longrightarrow> 2 \<le> np_ceil ((1 - 0.2) * real n)"
proof -
  assume "2 \<le> n"
  then have "2 \<le> real n" by simp
  then have "real_of_int 1 < (1 - 0.2) * real n" by simp
  then have "1 < \<lceil>(1 - 0.2) * real n\<rceil>" by (simp only: less_ceiling_iff)
  then show ?thesis by (simp add: np_ceil_def)
qed

lemma min_gap_div: "np_ceil ((1 - 0.2) * real n) = (4 * int n + 4) div 5"
proof -
  have "(1 - 0.2) * real n = real_of_int (4 * int n) / real_of_int 5" by simp
  then have "\<lceil>(1 - 0.2) * real n\<rceil> = - ((- (4 * int n)) div 5)"
    by (simp only: ceiling_divide_eq_div)
  also have "\<dots> = (4 * int n + 4) div 5" by linarith
  finally show ?thesis by (simp only: np_ceil_def)
qed

lemma max_gap_div: "np_ceil ((1 + 0.2) * real n) = (6 * int n + 4) div 5"
proof -
  have "(1 + 0.2) * real n = real_of_int (6 * int n) / real_of_int 5" by simp
  then have "\<lceil>(1 + 0.2) * real n\<rceil> = - ((- (6 * int n)) div 5)"
    by (simp only: ceiling_divide_eq_div)
  also have "\<dots> = (6 * int n + 4) div 5" by linarith
  finally show ?thesis by (simp only: np_ceil_def)
qed

lemma gap_range_nonempty: "0 < n \<Longrightarrow> np_ceil ((1 - 0.2) * real n) < np_ceil ((1 + 0.2) * real n)"
proof -
  assume "0 < n"
  then consider "n = 1" | "n = 2" | "3 \<le> n" by linarith
  then have "(4 * int n + 4) div 5 < (6 * int n + 4) div 5"
  proof cases
    case 1
    then show ?thesis by simp
  next
    case 2
    then show ?thesis by simp
  next
    case 3
    have "(4 * int n + 4) div 5 + 1 = (4 * int n + 4 + 5) div 5" by simp
    also have "\<dots> \<le> (6 * int n + 4) div 5" using 3 by (intro zdiv_mono1) simp_all
    finally show ?thesis by simp
  qed
  then show ?thesis by (simp only: min_gap_div max_gap_div)
qed

text \<open>
  The run in one piece: the three \<^verbatim>\<open>ValueError\<close>s (an empty range of sizes, a grid
  with no coordinate, a negative draw), and otherwise the scan of the new grid.
\<close>

lemma LinearScanRandGap_run_unfolded:
  "LinearScanRandGap_run_algorithm_on_f rng f self =
     (let lo = np_ceil ((1 - 0.2) * real (length (x_path_orig self)));
          hi = np_ceil ((1 + 0.2) * real (length (x_path_orig self)));
          g = map (\<lambda>v. [v])
                (np_linspace (Min (set (concat (x_path_orig self))))
                   (Max (set (concat (x_path_orig self)))) (nat (rng lo hi)))
      in if \<not> lo < hi \<or> concat (x_path_orig self) = [] \<or> rng lo hi < 0
         then (Inl ValueError, self)
         else (Inr (\<lparr>x = g, y = map f g\<rparr>, map f g), self\<lparr>x_path := g\<rparr>))"
  by (simp add: LinearScanRandGap_run_algorithm_on_f_def Let_def np_random_randint_def
        np_min_def np_max_def LinearScan_run_scan)

lemma LinearScanRandGap_run_frame:
  "snd (LinearScanRandGap_run_algorithm_on_f rng f self) =
     self\<lparr>x_path := x_path (snd (LinearScanRandGap_run_algorithm_on_f rng f self))\<rparr>"
  by (simp add: LinearScanRandGap_run_unfolded Let_def)

lemma LinearScanRandGap_run_x_path_orig:
  "x_path_orig (snd (LinearScanRandGap_run_algorithm_on_f rng f self)) = x_path_orig self"
  by (simp add: LinearScanRandGap_run_unfolded Let_def)

lemma LinearScanRandGap_run_ignores_x_path:
  "fst (LinearScanRandGap_run_algorithm_on_f rng f (self\<lparr>x_path := g\<rparr>)) =
   fst (LinearScanRandGap_run_algorithm_on_f rng f self)"
  by (simp add: LinearScanRandGap_run_unfolded Let_def)

lemma LinearScanRandGap_runs_x_path_orig:
  "x_path_orig (LinearScanRandGap_runs rs self) = x_path_orig self"
  by (induction rs self rule: LinearScanRandGap_runs.induct)
     (simp_all add: LinearScanRandGap_run_x_path_orig)

lemma LinearScanRandGap_run_succeeds:
  assumes contract: "randint_contract rng"
    and ne: "concat (x_path_orig self) \<noteq> []"
  shows "\<exists>res self'. LinearScanRandGap_run_algorithm_on_f rng f self = (Inr res, self')"
proof -
  define n where "n = length (x_path_orig self)"
  have npos: "0 < n" using ne by (auto simp: n_def)
  have range: "np_ceil ((1 - 0.2) * real n) < np_ceil ((1 + 0.2) * real n)"
    using npos by (rule gap_range_nonempty)
  with contract have "np_ceil ((1 - 0.2) * real n) \<le> rng (np_ceil ((1 - 0.2) * real n)) (np_ceil ((1 + 0.2) * real n))"
    by (simp add: randint_contract_def)
  moreover have "0 < np_ceil ((1 - 0.2) * real n)" using npos by (rule min_gap_pos)
  ultimately show ?thesis using range ne
    by (simp add: LinearScanRandGap_run_unfolded Let_def n_def)
qed

text \<open>
  C5, as the claim states it, fails on a grid of one point with several coordinates:
  \<^verbatim>\<open>np.min\<close> and \<^verbatim>\<open>np.max\<close> reduce over all coordinates, the one size that can be
  drawn for \<open>n = 1\<close> is 1, and \<^verbatim>\<open>np.linspace(min, max, 1)\<close> is the single sample
  \<open>min\<close>. On the original grid \<open>[[1, 5]]\<close> the run completes with the resampled grid
  \<open>[[1]]\<close>, whose maximum is 1 and not 5.
\<close>

theorem LinearScanRandGap_one_point_counterexample:
  "randint_contract (\<lambda>low high. low)
   \<and> LinearScanRandGap_run_algorithm_on_f (\<lambda>low high. low) hd
       \<lparr>name = ''LinearScan'', x_path = [[1, 5]], x_path_orig = [[1, 5]]\<rparr> =
     (Inr (\<lparr>x = [[1]], y = [1]\<rparr>, [1]),
      \<lparr>name = ''LinearScan'', x_path = [[1]], x_path_orig = [[1, 5]]\<rparr>)
   \<and> np_max (concat [[1]]) = Inr 1
   \<and> np_max (concat [[1, 5]]) = Inr 5
   \<and> np_max (concat (x_path \<lparr>name = ''LinearScan'', x_path = [[1]], x_path_orig = [[1, 5]]\<rparr>)) \<noteq>
       np_max (concat (x_path_orig \<lparr>name = ''LinearScan'', x_path = [[1]], x_path_orig = [[1, 5]]\<rparr>))"
  by (simp add: randint_contract_def LinearScanRandGap_run_unfolded Let_def np_ceil_def
        np_linspace_def np_max_def)

text \<open>
  C5, amended. For every run of LinearScanRandGap that completes, on an original grid
  of \<open>n\<close> points, with a generator that draws as \<^verbatim>\<open>np.random.randint\<close> documents:
  the number of points of the resampled grid is at least \<open>\<lceil>0.8 n\<rceil>\<close> and less than
  \<open>\<lceil>1.2 n\<rceil>\<close>, and the minimum of the resampled grid is the minimum of the original
  grid; the maximum of the resampled grid is the maximum of the original grid provided
  that a grid of a single point is a point of a single coordinate (as every grid on
  the one-dimensional domain of the class is); on a grid of a single point the
  maximum of the resampled grid is the minimum of the original grid. (A run on an
  empty original grid does not complete: the range of sizes is empty and
  \<^verbatim>\<open>np.random.randint\<close> raises \<^verbatim>\<open>ValueError\<close>.)
\<close>

theorem LinearScanRandGap_resampled_grid:
  assumes contract: "randint_contract rng"
    and run: "LinearScanRandGap_run_algorithm_on_f rng f self = (Inr res, self')"
  shows "np_ceil (0.8 * real (length (x_path_orig self))) \<le> int (length (x_path self'))
       \<and> int (length (x_path self')) < np_ceil (1.2 * real (length (x_path_orig self)))
       \<and> np_min (concat (x_path self')) = np_min (concat (x_path_orig self))
       \<and> ((\<forall>pt. x_path_orig self = [pt] \<longrightarrow> length pt = 1) \<longrightarrow>
            np_max (concat (x_path self')) = np_max (concat (x_path_orig self)))
       \<and> (length (x_path_orig self) = 1 \<longrightarrow>
            np_max (concat (x_path self')) = np_min (concat (x_path_orig self)))"
proof -
  define n where "n = length (x_path_orig self)"
  define lo where "lo = np_ceil ((1 - 0.2) * real n)"
  define hi where "hi = np_ceil ((1 + 0.2) * real n)"
  define a where "a = Min (set (concat (x_path_orig self)))"
  define b where "b = Max (set (concat (x_path_orig self)))"
  define k where "k = nat (rng lo hi)"
  from run have ok: "lo < hi" "concat (x_path_orig self) \<noteq> []" "0 \<le> rng lo hi"
    and self': "self' = self\<lparr>x_path := map (\<lambda>v. [v]) (np_linspace a b k)\<rparr>"
    by (auto simp: LinearScanRandGap_run_unfolded Let_def n_def lo_def hi_def a_def b_def k_def
             split: if_splits)
  from contract ok(1) have draw: "lo \<le> rng lo hi" "rng lo hi < hi"
    by (simp_all add: randint_contract_def)
  have npos: "0 < n" using ok(2) by (auto simp: n_def)
  have lo_pos: "0 < lo" unfolding lo_def using npos by (rule min_gap_pos)
  have kpos: "0 < k" using lo_pos draw(1) by (simp add: k_def)
  have size: "int (length (x_path self')) = rng lo hi"
    using ok(3) by (simp add: self' length_np_linspace k_def)
  have ab: "a \<le> b"
  proof -
    have fin: "finite (set (concat (x_path_orig self)))" by (rule finite_set)
    have "set (concat (x_path_orig self)) \<noteq> {}" using ok(2) by (simp only: set_empty not_False_eq_True)
    with fin have "b \<in> set (concat (x_path_orig self))" unfolding b_def by (rule Max_in)
    with fin show ?thesis unfolding a_def by (rule Min_le)
  qed
  have new_min: "np_min (concat (x_path self')) = Inr a"
    by (simp add: self' concat_singletons np_min_linspace [OF ab kpos])
  have old_min: "np_min (concat (x_path_orig self)) = Inr a"
    using ok(2) by (simp add: np_min_def a_def)
  have old_max: "np_max (concat (x_path_orig self)) = Inr b"
    using ok(2) by (simp add: np_max_def b_def)
  have max_eq: "np_max (concat (x_path self')) = np_max (concat (x_path_orig self))"
    if one_dim: "\<forall>pt. x_path_orig self = [pt] \<longrightarrow> length pt = 1"
  proof -
    have k1: "k = 1 \<longrightarrow> a = b"
    proof
      assume "k = 1"
      with draw(1) have "lo \<le> 1" by (simp add: k_def)
      have "n < 2"
      proof (rule ccontr)
        assume "\<not> n < 2"
        then have "2 \<le> n" by simp
        then have "2 \<le> lo" unfolding lo_def by (rule min_gap_ge2)
        with \<open>lo \<le> 1\<close> show False by simp
      qed
      with npos have "n = 1" by simp
      then obtain pt where pt: "x_path_orig self = [pt]"
        by (cases "x_path_orig self") (auto simp: n_def)
      with one_dim have "length pt = 1" by simp
      then obtain v where "pt = [v]" by (cases pt) auto
      with pt show "a = b" by (simp add: a_def b_def)
    qed
    have "np_max (concat (x_path self')) = Inr b"
      by (simp add: self' concat_singletons np_max_linspace [OF ab kpos k1])
    with old_max show ?thesis by simp
  qed
  have one_point: "np_max (concat (x_path self')) = np_min (concat (x_path_orig self))"
    if single: "length (x_path_orig self) = 1"
  proof -
    from single have n1: "n = 1" by (simp add: n_def)
    have "lo = (4 * int n + 4) div 5" unfolding lo_def by (rule min_gap_div)
    with n1 have lo1: "lo = 1" by simp
    have "hi = (6 * int n + 4) div 5" unfolding hi_def by (rule max_gap_div)
    with n1 have hi2: "hi = 2" by simp
    from draw have "rng lo hi = 1" unfolding lo1 hi2 by simp
    then have "k = 1" by (simp add: k_def)
    then have "np_max (concat (x_path self')) = Inr a"
      by (simp add: self' concat_singletons np_linspace_def np_max_def)
    with old_min show ?thesis by simp
  qed
  from size draw new_min old_min max_eq one_point show ?thesis
    by (simp add: lo_def hi_def n_def)
qed

theorem LinearScanRandGap_resampled_grid_witness:
  "randint_contract (\<lambda>low high. low)
   \<and> LinearScanRandGap_run_algorithm_on_f (\<lambda>low high. low) hd
       \<lparr>name = ''LinearScan'', x_path = [], x_path_orig = [[0], [1], [2], [3], [4]]\<rparr> =
     (Inr (\<lparr>x = [[0], [4/3], [8/3], [4]], y = [0, 4/3, 8/3, 4]\<rparr>, [0, 4/3, 8/3, 4]),
      \<lparr>name = ''LinearScan'', x_path = [[0], [4/3], [8/3], [4]],
        x_path_orig = [[0], [1], [2], [3], [4]]\<rparr>)
   \<and> np_ceil (0.8 * real (length [[0::real], [1], [2], [3], [4]])) \<le> 4
   \<and> 4 < np_ceil (1.2 * real (length [[0::real], [1], [2], [3], [4]]))
   \<and> np_min (concat [[0], [4/3], [8/3], [4]]) = np_min (concat [[0], [1], [2], [3], [4]])
   \<and> np_max (concat [[0], [4/3], [8/3], [4]]) = np_max (concat [[0], [1], [2], [3], [4]])
   \<and> LinearScanRandGap_run_algorithm_on_f (\<lambda>low high. low) hd
       \<lparr>name = ''LinearScan'', x_path = [], x_path_orig = [[7]]\<rparr> =
     (Inr (\<lparr>x = [[7]], y = [7]\<rparr>, [7]),
      \<lparr>name = ''LinearScan'', x_path = [[7]], x_path_orig = [[7]]\<rparr>)
   \<and> length (x_path_orig \<lparr>name = ''LinearScan'', x_path = [], x_path_orig = [[7::real]]\<rparr>) = 1
   \<and> np_max (concat [[7]]) = np_min (concat [[7]])
   \<and> np_max (concat [[7]]) = np_max (concat [[7]])"
proof -
  let ?rng = "\<lambda>low high :: int. low"
  let ?p = "\<lparr>name = ''LinearScan'', x_path = [], x_path_orig = [[0], [1], [2], [3], [4::real]]\<rparr>"
  let ?p' = "\<lparr>name = ''LinearScan'', x_path = [[0], [4/3], [8/3], [4::real]],
        x_path_orig = [[0], [1], [2], [3], [4::real]]\<rparr>"
  let ?res = "(\<lparr>x = [[0], [4/3], [8/3], [4::real]], y = [0, 4/3, 8/3, 4::real]\<rparr>, [0, 4/3, 8/3, 4::real])"
  let ?q = "\<lparr>name = ''LinearScan'', x_path = [], x_path_orig = [[7::real]]\<rparr>"
  let ?q' = "\<lparr>name = ''LinearScan'', x_path = [[7::real]], x_path_orig = [[7::real]]\<rparr>"
  let ?resq = "(\<lparr>x = [[7::real]], y = [7::real]\<rparr>, [7::real])"
  have contract: "randint_contract ?rng" by (simp add: randint_contract_def)
  have one_dim: "\<forall>pt. x_path_orig ?p = [pt] \<longrightarrow> length pt = 1" by simp
  have run: "LinearScanRandGap_run_algorithm_on_f ?rng hd ?p = (Inr ?res, ?p')"
    by (simp add: LinearScanRandGap_run_unfolded Let_def np_ceil_def np_linspace_def upt_conv_Cons)
  note inst = LinearScanRandGap_resampled_grid [OF contract run]
  from inst have size: "np_ceil (0.8 * real (length [[0::real], [1], [2], [3], [4]])) \<le> 4
      \<and> 4 < np_ceil (1.2 * real (length [[0::real], [1], [2], [3], [4]]))
      \<and> np_min (concat [[0], [4/3], [8/3], [4]]) = np_min (concat [[0], [1], [2], [3], [4]])"
    by simp
  from inst [THEN conjunct2, THEN conjunct2, THEN conjunct2, THEN conjunct1, THEN mp, OF one_dim]
  have max5: "np_max (concat [[0], [4/3], [8/3], [4]]) = np_max (concat [[0], [1], [2], [3], [4]])"
    by simp
  have single: "length (x_path_orig ?q) = 1" by simp
  have one_dim_q: "\<forall>pt. x_path_orig ?q = [pt] \<longrightarrow> length pt = 1" by simp
  have runq: "LinearScanRandGap_run_algorithm_on_f ?rng hd ?q = (Inr ?resq, ?q')"
    by (simp add: LinearScanRandGap_run_unfolded Let_def np_ceil_def np_linspace_def)
  note instq = LinearScanRandGap_resampled_grid [OF contract runq]
  from instq [THEN conjunct2, THEN conjunct2, THEN conjunct2, THEN conjunct2, THEN mp, OF single]
  have maxmin: "np_max (concat [[7]]) = np_min (concat [[7]])" by simp
  from instq [THEN conjunct2, THEN conjunct2, THEN conjunct2, THEN conjunct1, THEN mp, OF one_dim_q]
  have maxq: "np_max (concat [[7]]) = np_max (concat [[7]])" by simp
  from contract run size max5 runq single maxmin maxq show ?thesis by (intro conjI) simp_all
qed

text \<open>
  C10. A run of LinearScanRandGap writes nothing to the instance but \<open>x_path\<close> (where
  the resampled grid stays until the next run replaces it): after any number of runs,
  each with its own draw and its own function, \<open>x_path_orig\<close> is what it was; what a
  run returns does not depend on the grid that an earlier run has left in \<open>x_path\<close>,
  only on \<open>x_path_orig\<close>; and on an instance as \<^verbatim>\<open>__init__\<close> leaves it,
  \<open>x_path_orig\<close> is the grid configured at construction, before and after any number
  of runs.
\<close>

theorem LinearScanRandGap_keeps_original:
  "x_path_orig (LinearScanRandGap_runs rs self) = x_path_orig self
   \<and> x_path_orig (snd (LinearScanRandGap_run_algorithm_on_f rng f self)) = x_path_orig self
   \<and> snd (LinearScanRandGap_run_algorithm_on_f rng f self) =
       self\<lparr>x_path := x_path (snd (LinearScanRandGap_run_algorithm_on_f rng f self))\<rparr>
   \<and> fst (LinearScanRandGap_run_algorithm_on_f rng f (self\<lparr>x_path := g\<rparr>)) =
       fst (LinearScanRandGap_run_algorithm_on_f rng f self)
   \<and> (case LinearScanRandGap_init dict_to_namespace raw of
        Inl e \<Rightarrow> False
      | Inr self0 \<Rightarrow>
          x_path_orig self0 = getattr (cfg_x_path (dict_to_namespace raw))
                                (map (\<lambda>v. [v]) (np_linspace 3.5 20 100))
          \<and> x_path_orig (LinearScanRandGap_runs rs self0) = x_path_orig self0)"
proof -
  have init: "(case LinearScanRandGap_init dict_to_namespace raw of
        Inl e \<Rightarrow> False
      | Inr self0 \<Rightarrow>
          x_path_orig self0 = getattr (cfg_x_path (dict_to_namespace raw))
                                (map (\<lambda>v. [v]) (np_linspace 3.5 20 100))
          \<and> x_path_orig (LinearScanRandGap_runs rs self0) = x_path_orig self0)"
    by (simp add: LinearScanRandGap_init_def LinearScan_init_def LinearScan_set_params_def
          Let_def LinearScanRandGap_runs_x_path_orig)
  show ?thesis
    using init LinearScanRandGap_runs_x_path_orig [of rs self]
      LinearScanRandGap_run_x_path_orig [of rng f self]
      LinearScanRandGap_run_frame [of rng f self]
      LinearScanRandGap_run_ignores_x_path [of rng f g self]
    by (intro conjI)
qed

section \<open>Configuration\<close>

text \<open>
  C6, as the claim states it, fails: \<^verbatim>\<open>set_params\<close> has no check and no
  \<^verbatim>\<open>raise\<close>. An empty grid for LinearScan is stored, the later run makes no query and
  returns the empty output; a \<open>max_iter\<close> of zero for OptRightScan is stored as well.
\<close>

theorem set_params_no_validation_counterexample:
  "LinearScan_set_params id \<lparr>cfg_name = None, cfg_x_path = Some []\<rparr> =
     Inr \<lparr>name = ''LinearScan'', x_path = []\<rparr>
   \<and> LinearScan_run_algorithm_on_f hd \<lparr>name = ''LinearScan'', x_path = []\<rparr> =
     (Inr (\<lparr>x = [], y = []\<rparr>, []), \<lparr>name = ''LinearScan'', x_path = []\<rparr>)
   \<and> OptRightScan_set_params id
       \<lparr>cfg_name = None, cfg_init_x = None, cfg_x_grid_gap = None, cfg_conv_thresh = None,
         cfg_max_iter = Some 0\<rparr> =
     Inr \<lparr>name = ''OptRightScan'', init_x = [4], x_grid_gap = 0.1, conv_thresh = 0.2,
           max_iter = 0\<rparr>"
  by (simp add: LinearScan_set_params_def OptRightScan_set_params_def getattr_def
        LinearScan_run_scan)

text \<open>
  C6, amended. \<^verbatim>\<open>set_params\<close> never fails, for LinearScan (and so for the
  \<^verbatim>\<open>__init__\<close> of LinearScanRandGap), AverageOutputs and OptRightScan: a missing
  field takes its default (the names of the classes; 100 evenly spaced points from 3.5
  to 20, or the six points of AverageOutputs; the point 4.0, the gap 0.1, the threshold
  0.2, 100 iterations), and a provided field is stored as it is, whatever its value: an
  empty grid and a non-positive \<open>max_iter\<close> are stored, nothing is raised at
  configuration time, and the run of LinearScan on the stored empty grid returns the
  empty path and the empty output.
\<close>

theorem set_params_defaults:
  "LinearScan_set_params dict_to_namespace raw =
     Inr \<lparr>name = (case cfg_name (dict_to_namespace raw) of None \<Rightarrow> ''LinearScan'' | Some v \<Rightarrow> v),
          x_path = (case cfg_x_path (dict_to_namespace raw) of
                      None \<Rightarrow> map (\<lambda>v. [v]) (np_linspace 3.5 20 100) | Some v \<Rightarrow> v)\<rparr>
   \<and> length (map (\<lambda>v. [v]) (np_linspace 3.5 20 100)) = 100
   \<and> hd (map (\<lambda>v. [v]) (np_linspace 3.5 20 100)) = [3.5]
   \<and> last (map (\<lambda>v. [v]) (np_linspace 3.5 20 100)) = [20]
   \<and> (\<exists>self. LinearScanRandGap_init dict_to_namespace raw = Inr self
         \<and> x_path self = (case cfg_x_path (dict_to_namespace raw) of
                      None \<Rightarrow> map (\<lambda>v. [v]) (np_linspace 3.5 20 100) | Some v \<Rightarrow> v)
         \<and> x_path_orig self = x_path self)
   \<and> AverageOutputs_set_params dict_to_namespace raw =
     Inr \<lparr>name = (case cfg_name (dict_to_namespace raw) of None \<Rightarrow> ''AverageOutputs'' | Some v \<Rightarrow> v),
          x_path = (case cfg_x_path (dict_to_namespace raw) of
                      None \<Rightarrow> [[5.1], [5.3], [5.5], [20.1], [20.3], [20.5]] | Some v \<Rightarrow> v)\<rparr>
   \<and> OptRightScan_set_params dict_to_namespace' raw' =
     Inr \<lparr>name = (case cfg_name (dict_to_namespace' raw') of None \<Rightarrow> ''OptRightScan'' | Some v \<Rightarrow> v),
          init_x = (case cfg_init_x (dict_to_namespace' raw') of None \<Rightarrow> [4] | Some v \<Rightarrow> v),
          x_grid_gap = (case cfg_x_grid_gap (dict_to_namespace' raw') of None \<Rightarrow> 0.1 | Some v \<Rightarrow> v),
          conv_thresh = (case cfg_conv_thresh (dict_to_namespace' raw') of None \<Rightarrow> 0.2 | Some v \<Rightarrow> v),
          max_iter = (case cfg_max_iter (dict_to_namespace' raw') of None \<Rightarrow> 100 | Some v \<Rightarrow> v)\<rparr>
   \<and> (cfg_x_path (dict_to_namespace raw) = Some [] \<longrightarrow>
        (\<exists>self. LinearScan_set_params dict_to_namespace raw = Inr self \<and> x_path self = []
           \<and> LinearScan_run_algorithm_on_f f self = (Inr (\<lparr>x = [], y = []\<rparr>, []), self)))"
proof -
  have grid: "length (map (\<lambda>v. [v]) (np_linspace 3.5 20 100)) = 100"
    by (simp add: length_np_linspace)
  have first: "hd (map (\<lambda>v. [v]) (np_linspace 3.5 20 100)) = [3.5]"
    by (simp add: np_linspace_def hd_map upt_conv_Cons)
  have "last (np_linspace 3.5 20 100) = 20"
    by (simp add: np_linspace_def last_map)
  moreover have "np_linspace 3.5 20 100 \<noteq> []"
    using length_np_linspace [of "3.5" 20 100] by auto
  ultimately have final: "last (map (\<lambda>v. [v]) (np_linspace 3.5 20 100)) = [20]"
    by (simp add: last_map)
  have empty: "cfg_x_path (dict_to_namespace raw) = Some [] \<longrightarrow>
        (\<exists>self. LinearScan_set_params dict_to_namespace raw = Inr self \<and> x_path self = []
           \<and> LinearScan_run_algorithm_on_f f self = (Inr (\<lparr>x = [], y = []\<rparr>, []), self))"
    by (simp add: LinearScan_set_params_def getattr_def LinearScan_run_scan)
  have ls: "LinearScan_set_params dict_to_namespace raw =
     Inr \<lparr>name = (case cfg_name (dict_to_namespace raw) of None \<Rightarrow> ''LinearScan'' | Some v \<Rightarrow> v),
          x_path = (case cfg_x_path (dict_to_namespace raw) of
                      None \<Rightarrow> map (\<lambda>v. [v]) (np_linspace 3.5 20 100) | Some v \<Rightarrow> v)\<rparr>"
    by (simp add: LinearScan_set_params_def getattr_def Let_def split: option.splits)
  have rg: "\<exists>self. LinearScanRandGap_init dict_to_namespace raw = Inr self
         \<and> x_path self = (case cfg_x_path (dict_to_namespace raw) of
                      None \<Rightarrow> map (\<lambda>v. [v]) (np_linspace 3.5 20 100) | Some v \<Rightarrow> v)
         \<and> x_path_orig self = x_path self"
    by (simp add: LinearScanRandGap_init_def LinearScan_init_def ls)
  have ao: "AverageOutputs_set_params dict_to_namespace raw =
     Inr \<lparr>name = (case cfg_name (dict_to_namespace raw) of None \<Rightarrow> ''AverageOutputs'' | Some v \<Rightarrow> v),
          x_path = (case cfg_x_path (dict_to_namespace raw) of
                      None \<Rightarrow> [[5.1], [5.3], [5.5], [20.1], [20.3], [20.5]] | Some v \<Rightarrow> v)\<rparr>"
    by (simp add: AverageOutputs_set_params_def getattr_def Let_def split: option.splits)
  have ors: "OptRightScan_set_params dict_to_namespace' raw' =
     Inr \<lparr>name = (case cfg_name (dict_to_namespace' raw') of None \<Rightarrow> ''OptRightScan'' | Some v \<Rightarrow> v),
          init_x = (case cfg_init_x (dict_to_namespace' raw') of None \<Rightarrow> [4] | Some v \<Rightarrow> v),
          x_grid_gap = (case cfg_x_grid_gap (dict_to_namespace' raw') of None \<Rightarrow> 0.1 | Some v \<Rightarrow> v),
          conv_thresh = (case cfg_conv_thresh (dict_to_namespace' raw') of None \<Rightarrow> 0.2 | Some v \<Rightarrow> v),
          max_iter = (case cfg_max_iter (dict_to_namespace' raw') of None \<Rightarrow> 100 | Some v \<Rightarrow> v)\<rparr>"
    by (simp add: OptRightScan_set_params_def getattr_def Let_def split: option.splits)
  from ls grid first final rg ao ors empty show ?thesis by (intro conjI)
qed

theorem set_params_defaults_witness:
  "cfg_x_path (id \<lparr>cfg_name = Some ''scan'', cfg_x_path = Some []\<rparr>) = Some []
   \<and> LinearScan_set_params id \<lparr>cfg_name = Some ''scan'', cfg_x_path = Some []\<rparr> =
       Inr \<lparr>name = ''scan'', x_path = []\<rparr>
   \<and> (\<exists>self. LinearScan_set_params id \<lparr>cfg_name = Some ''scan'', cfg_x_path = Some []\<rparr> = Inr self
         \<and> x_path self = []
         \<and> LinearScan_run_algorithm_on_f (\<lambda>pt. 2 * hd pt) self = (Inr (\<lparr>x = [], y = []\<rparr>, []), self))"
proof -
  let ?cfg = "\<lparr>cfg_name = Some ''scan'', cfg_x_path = Some ([] :: point list)\<rparr>"
  have given: "cfg_x_path (id ?cfg) = Some []" by simp
  let ?ocfg = "\<lparr>cfg_name = None, cfg_init_x = None, cfg_x_grid_gap = None,
      cfg_conv_thresh = None, cfg_max_iter = None\<rparr>"
  note inst = set_params_defaults [where dict_to_namespace = id and raw = ?cfg
      and dict_to_namespace' = id and raw' = ?ocfg and f = "\<lambda>pt. 2 * hd pt"]
  from inst have stored: "LinearScan_set_params id ?cfg = Inr \<lparr>name = ''scan'', x_path = []\<rparr>"
    by simp
  have "cfg_x_path (id ?cfg) = Some [] \<longrightarrow>
      (\<exists>self. LinearScan_set_params id ?cfg = Inr self \<and> x_path self = []
         \<and> LinearScan_run_algorithm_on_f (\<lambda>pt. 2 * hd pt) self = (Inr (\<lparr>x = [], y = []\<rparr>, []), self))"
    using inst by (elim conjE)
  with given stored show ?thesis by blast
qed

end
